theory Spec2Isabelle
  imports Complex_Main "HOL-Library.AList" "HOL-Library.Log_Nat"
begin

section \<open>Log parser (lib/log-parser.js)\<close>

text \<open>
  \<open>parseLogFile\<close> and \<open>groupBySession\<close>; in the source tree the module is the last part of
  the file lib/git-analyzer.js (lines 364-423), and the line numbers below are those of
  that file.

  The values \<open>JSON.parse\<close> produces. An object is the list of its own properties; reading
  a property gives \<open>None\<close> for \<open>undefined\<close>.
\<close>

datatype json =
    JNull
  | JBool bool
  | JNumber rat
  | JString string
  | JArray "json list"
  | JObject "(string \<times> json) list"

datatype line_error = SyntaxError | TypeError | MissingRequiredFields

record log_entry =
  le_timestamp :: json
  le_session_id :: json
  le_prompt_preview :: json
  le_prompt_length :: json
  le_cwd :: json
  le_git_branch :: json
  le_git_remote :: json

definition property :: "json \<Rightarrow> string \<Rightarrow> json option" where
  \<comment> \<open>\<open>entry.name\<close> on a value other than \<open>null\<close>\<close>
  "property v name = (case v of JObject props \<Rightarrow> map_of props name | _ \<Rightarrow> None)"

definition isTruthy :: "json option \<Rightarrow> bool" where
  "isTruthy v =
     (case v of
        None \<Rightarrow> False
      | Some JNull \<Rightarrow> False
      | Some (JBool b) \<Rightarrow> b
      | Some (JNumber n) \<Rightarrow> n \<noteq> 0
      | Some (JString s) \<Rightarrow> s \<noteq> []
      | Some (JArray _) \<Rightarrow> True
      | Some (JObject _) \<Rightarrow> True)"

definition orElse :: "json option \<Rightarrow> json \<Rightarrow> json" where
  \<comment> \<open>\<open>v || d\<close>\<close>
  "orElse v d = (if isTruthy v then the v else d)"

definition parseEntry :: "json \<Rightarrow> line_error + log_entry" where
  \<comment> \<open>lines 381-395, on the value of one line; reading a property of \<open>null\<close> throws\<close>
  "parseEntry entry =
     (if entry = JNull then Inl TypeError
      else if \<not> isTruthy (property entry ''timestamp'') \<or>
              \<not> isTruthy (property entry ''session_id'')
      then Inl MissingRequiredFields
      else Inr \<lparr> le_timestamp = the (property entry ''timestamp''),
                 le_session_id = the (property entry ''session_id''),
                 le_prompt_preview = orElse (property entry ''prompt_preview'') JNull,
                 le_prompt_length = orElse (property entry ''prompt_length'') (JNumber 0),
                 le_cwd = orElse (property entry ''cwd'') JNull,
                 le_git_branch = orElse (property entry ''git_branch'') JNull,
                 le_git_remote = orElse (property entry ''git_remote'') JNull \<rparr>)"

definition parseLine :: "(string \<Rightarrow> json option) \<Rightarrow> string \<Rightarrow> line_error + log_entry" where
  \<comment> \<open>the body of the inner \<open>try\<close>; \<open>JSON_parse\<close> gives \<open>None\<close> where \<open>JSON.parse\<close>
      throws\<close>
  "parseLine JSON_parse line =
     (case JSON_parse line of None \<Rightarrow> Inl SyntaxError | Some entry \<Rightarrow> parseEntry entry)"

fun parseLines ::
  "(string \<Rightarrow> json option) \<Rightarrow> string list \<Rightarrow> nat \<Rightarrow>
   log_entry list \<times> (nat \<times> line_error) list \<Rightarrow> log_entry list \<times> (nat \<times> line_error) list" where
  \<comment> \<open>the loop \<open>for (let i = 0; i < lines.length; i++)\<close>, from index \<open>i\<close>\<close>
  "parseLines JSON_parse [] i acc = acc"
| "parseLines JSON_parse (line # rest) i acc =
     (case parseLine JSON_parse line of
        Inl e \<Rightarrow> parseLines JSON_parse rest (Suc i) (fst acc, snd acc @ [(i + 1, e)])
      | Inr entry \<Rightarrow> parseLines JSON_parse rest (Suc i) (fst acc @ [entry], snd acc))"

definition isWhiteSpace :: "char \<Rightarrow> bool" where
  \<comment> \<open>what \<open>trim\<close> removes, for the code units below 256\<close>
  "isWhiteSpace c = (of_char c \<in> {9, 10, 11, 12, 13, 32, 160 :: nat})"

definition trim :: "string \<Rightarrow> string" where
  "trim s = rev (dropWhile isWhiteSpace (rev (dropWhile isWhiteSpace s)))"

fun split_on :: "char \<Rightarrow> string \<Rightarrow> string list" where
  \<comment> \<open>\<open>s.split(sep)\<close> for a separator of one character\<close>
  "split_on sep [] = [[]]"
| "split_on sep (c # cs) =
     (if c = sep then [] # split_on sep cs
      else case split_on sep cs of
             [] \<Rightarrow> [[c]]
           | w # ws \<Rightarrow> (c # w) # ws)"

definition parseLogFile ::
  "(string \<Rightarrow> string option) \<Rightarrow> (string \<Rightarrow> json option) \<Rightarrow> string \<Rightarrow>
   unit + log_entry list \<times> (nat \<times> line_error) list" where
  \<comment> \<open>\<open>readFileSync\<close> gives \<open>None\<close> where it throws; the outer \<open>catch\<close> throws again\<close>
  "parseLogFile readFileSync JSON_parse filePath =
     (case readFileSync filePath of
        None \<Rightarrow> Inl ()
      | Some content \<Rightarrow>
          let lines = filter (\<lambda>line. trim line \<noteq> []) (split_on (CHR 0x0A) (trim content))
          in Inr (parseLines JSON_parse lines 0 ([], [])))"

section \<open>JavaScript numbers\<close>

text \<open>
  A JavaScript number is a binary64 floating-point number. A finite one is modelled as
  the rational it denotes. \<open>binary64\<close> is the rounding every arithmetic operation ends
  with: the exact result goes to the nearest number with a significand of 53 bits, a tie
  to the one with the even significand; below \<open>2^-1022\<close> the representable numbers are
  the multiples of \<open>2^-1074\<close>. Overflow to \<open>Infinity\<close> is not represented, so the model
  is that of the code as long as every result stays below \<open>2^1024\<close> in magnitude.
\<close>

definition pow2 :: "int \<Rightarrow> rat" where
  "pow2 e = (if 0 \<le> e then 2 ^ nat e else 1 / 2 ^ nat (- e))"

definition roundHalfEven :: "rat \<Rightarrow> int" where
  \<comment> \<open>the nearest integer, a tie going to the even one\<close>
  "roundHalfEven x =
     (let n = \<lfloor>x\<rfloor>; r = x - of_int n
      in if r < 1 / 2 then n else if 1 / 2 < r then n + 1 else if even n then n else n + 1)"

definition exponentOf :: "rat \<Rightarrow> int" where
  \<comment> \<open>for \<open>x \<noteq> 0\<close>, the \<open>e\<close> with \<open>2^e \<le> |x| < 2^(e+1)\<close>; \<open>bitlen n\<close> is the number of
      binary digits of \<open>n\<close>\<close>
  "exponentOf x =
     (let a = \<bar>x\<bar> in
      if 1 \<le> a then bitlen \<lfloor>a\<rfloor> - 1
      else let k = bitlen \<lfloor>1 / a\<rfloor> - 1 in if a = pow2 (- k) then - k else - k - 1)"

definition binary64 :: "rat \<Rightarrow> rat" where
  "binary64 x =
     (if x = 0 then 0
      else let e = max (exponentOf x - 52) (- 1074)
           in of_int (roundHalfEven (x / pow2 e)) * pow2 e)"

section \<open>Session builder (lib/time-calculator.js)\<close>

text \<open>
  \<open>groupSessions\<close> and \<open>generateSessionId\<close>, lines 1-78 of lib/time-calculator.js.

  A log entry as the session builder reads it: the timestamp a number, the session key a
  string; \<open>null\<close> is \<open>None\<close>. A string or \<open>null\<close> is truthy when it is neither \<open>null\<close>
  nor the empty string. The products, the difference and the quotients that decide where
  a session ends and which whole seconds bound it are rounded as the code rounds them.
  The duration of a session is kept as the exact quotient of its whole-second bounds,
  of which the code holds the rounding.
\<close>

record prompt =
  timestamp :: rat
  session_id :: string
  prompt_preview :: "string option"
  prompt_length :: nat
  cwd :: "string option"
  git_branch :: "string option"
  git_remote :: "string option"

record session =
  s_session_id :: string
  start_time :: int
  end_time :: int
  lastPromptTime :: rat
  s_cwd :: "string option"
  prompts :: "prompt list"
  original_session_id :: string
  prompt_count :: nat
  duration_minutes :: "rat option"

text \<open>
  The two library functions \<open>generateSessionId\<close> relies on: the SHA-256 hex digest of
  node's \<open>crypto\<close> module and the conversion of a number to a string inside a template
  literal. Both are parameters of the model.
\<close>

record host =
  sha256_hex :: "string \<Rightarrow> string"
  number_to_string :: "rat \<Rightarrow> string"

definition truthy :: "string option \<Rightarrow> bool" where
  "truthy v = (case v of None \<Rightarrow> False | Some s \<Rightarrow> s \<noteq> [])"

definition or_empty :: "string option \<Rightarrow> string" where
  \<comment> \<open>\<open>v || ''\<close>\<close>
  "or_empty v = (case v of None \<Rightarrow> [] | Some s \<Rightarrow> s)"

definition generateSessionId :: "host \<Rightarrow> prompt \<Rightarrow> string" where
  "generateSessionId H prompt =
     take 16 (sha256_hex H
       (number_to_string H (timestamp prompt) @ ''-'' @ or_empty (cwd prompt) @ ''-'' @ session_id prompt))"

definition newSession :: "host \<Rightarrow> prompt \<Rightarrow> rat \<Rightarrow> session" where
  \<comment> \<open>The object literal of lines 36-44; \<open>prompt_count\<close> and \<open>duration_minutes\<close> are not
      set there (\<open>prompt_count\<close> is assigned a few lines below, in the same iteration).\<close>
  "newSession H prompt promptTime =
     \<lparr> s_session_id = generateSessionId H prompt,
       start_time = \<lfloor>binary64 (promptTime / 1000)\<rfloor>,
       end_time = \<lfloor>binary64 (promptTime / 1000)\<rfloor>,
       lastPromptTime = promptTime,
       s_cwd = cwd prompt,
       prompts = [],
       original_session_id = session_id prompt,
       prompt_count = 0,
       duration_minutes = None \<rparr>"

definition finalizePrevious :: "session \<Rightarrow> session" where
  \<comment> \<open>lines 30-31, inside the loop\<close>
  "finalizePrevious c =
     c\<lparr>duration_minutes := Some ((of_int (end_time c) - of_int (start_time c)) / 1000 / 60)\<rparr>"

definition finalizeLast :: "session \<Rightarrow> session" where
  \<comment> \<open>lines 61-62, after the loop\<close>
  "finalizeLast c =
     c\<lparr>duration_minutes := Some ((of_int (end_time c) - of_int (start_time c)) / 60)\<rparr>"

definition addPrompt :: "session \<Rightarrow> prompt \<Rightarrow> rat \<Rightarrow> session" where
  \<comment> \<open>lines 48-56\<close>
  "addPrompt c prompt promptTime =
     c\<lparr> prompts := prompts c @ [prompt],
        end_time := \<lfloor>binary64 (promptTime / 1000)\<rfloor>,
        lastPromptTime := promptTime,
        prompt_count := length (prompts c @ [prompt]),
        s_cwd := (if truthy (cwd prompt) then cwd prompt else s_cwd c) \<rparr>"

fun groupLoop :: "host \<Rightarrow> rat \<Rightarrow> prompt list \<Rightarrow> session option \<Rightarrow> session list \<Rightarrow> session list" where
  \<comment> \<open>the loop of lines 22-57 and the closing of the last session, lines 59-64\<close>
  "groupLoop H gapMs [] currentSession sessions =
     (case currentSession of
        None \<Rightarrow> sessions
      | Some c \<Rightarrow> sessions @ [finalizeLast c])"
| "groupLoop H gapMs (prompt # rest) currentSession sessions =
     (let promptTime = binary64 (timestamp prompt * 1000) in
      case currentSession of
        None \<Rightarrow>
          groupLoop H gapMs rest
            (Some (addPrompt (newSession H prompt promptTime) prompt promptTime)) sessions
      | Some c \<Rightarrow>
          if binary64 (promptTime - lastPromptTime c) > gapMs
          then groupLoop H gapMs rest
                 (Some (addPrompt (newSession H prompt promptTime) prompt promptTime))
                 (sessions @ [finalizePrevious c])
          else groupLoop H gapMs rest (Some (addPrompt c prompt promptTime)) sessions)"

definition groupSessions :: "host \<Rightarrow> prompt list \<Rightarrow> rat \<Rightarrow> session list" where
  \<comment> \<open>The comparator \<open>a.timestamp - b.timestamp\<close> of the stable sort has the sign of
      the exact difference: the difference of two distinct binary64 numbers never rounds
      to zero.\<close>
  "groupSessions H ps gapMinutes =
     (if ps = [] then []
      else groupLoop H (binary64 (binary64 (gapMinutes * 60) * 1000))
             (sort_key timestamp ps) None [])"

section \<open>Regular expressions of the issue extractor\<close>

text \<open>
  The issue extractor is the second part of the file lib/time-calculator.js (lines
  121-381), which \<open>processor.js\<close> imports as lib/issue-extractor.js.

  Its built-in patterns are sequences of character classes with
  greedy bounded repetition, word boundaries, a start anchor and one capture group. The
  matcher below is the backtracking matcher of ECMAScript restricted to such sequences:
  a repetition first takes as many characters as it can and gives them back one at a
  time while the rest of the pattern fails.
\<close>

datatype atom =
    Class "char \<Rightarrow> bool" nat "nat option"  \<comment> \<open>class, minimum, maximum (\<open>None\<close>: unbounded)\<close>
  | WordBoundary                             \<comment> \<open>\<open>\\b\<close>\<close>
  | StartOfInput                             \<comment> \<open>\<open>^\<close> without the \<open>m\<close> flag\<close>
  | GroupOpen
  | GroupClose

definition isUpper :: "char \<Rightarrow> bool" where
  "isUpper c = (let n = (of_char c :: nat) in 65 \<le> n \<and> n \<le> 90)"

definition isLower :: "char \<Rightarrow> bool" where
  "isLower c = (let n = (of_char c :: nat) in 97 \<le> n \<and> n \<le> 122)"

definition isDigit :: "char \<Rightarrow> bool" where
  "isDigit c = (let n = (of_char c :: nat) in 48 \<le> n \<and> n \<le> 57)"

definition isWordChar :: "char \<Rightarrow> bool" where
  \<comment> \<open>\<open>\\w\<close>\<close>
  "isWordChar c = (isUpper c \<or> isLower c \<or> isDigit c \<or> c = CHR ''_'')"

definition isSpace :: "char \<Rightarrow> bool" where
  \<comment> \<open>\<open>\\s\<close>, for the code units below 256: tab, line feed, vertical tab, form feed,
      carriage return, space, no-break space\<close>
  "isSpace c = (of_char c \<in> {9, 10, 11, 12, 13, 32, 160 :: nat})"

definition lit :: "char \<Rightarrow> atom" where
  "lit c = Class (\<lambda>x. x = c) 1 (Some 1)"

definition atWordBoundary :: "string \<Rightarrow> nat \<Rightarrow> bool" where
  "atWordBoundary s i =
     ((0 < i \<and> isWordChar (s ! (i - 1))) \<noteq> (i < length s \<and> isWordChar (s ! i)))"

fun firstSome :: "(nat \<Rightarrow> 'a option) \<Rightarrow> nat list \<Rightarrow> 'a option" where
  "firstSome f [] = None"
| "firstSome f (k # ks) = (case f k of Some r \<Rightarrow> Some r | None \<Rightarrow> firstSome f ks)"

text \<open>
  \<open>matchAt atoms s i gs ge\<close> matches the atoms against \<open>s\<close> from index \<open>i\<close>; the result
  is the end index of the match with the bounds of the capture group.
\<close>

fun matchAt :: "atom list \<Rightarrow> string \<Rightarrow> nat \<Rightarrow> nat \<Rightarrow> nat \<Rightarrow> (nat \<times> nat \<times> nat) option" where
  "matchAt [] s i gs ge = Some (i, gs, ge)"
| "matchAt (WordBoundary # rest) s i gs ge =
     (if atWordBoundary s i then matchAt rest s i gs ge else None)"
| "matchAt (StartOfInput # rest) s i gs ge =
     (if i = 0 then matchAt rest s i gs ge else None)"
| "matchAt (GroupOpen # rest) s i gs ge = matchAt rest s i i ge"
| "matchAt (GroupClose # rest) s i gs ge = matchAt rest s i gs i"
| "matchAt (Class cls lo hi # rest) s i gs ge =
     (let avail = length (takeWhile cls (drop i s));
          most = (case hi of None \<Rightarrow> avail | Some h \<Rightarrow> min h avail)
      in firstSome (\<lambda>k. matchAt rest s (i + k) gs ge) (rev [lo ..< Suc most]))"

definition captured :: "string \<Rightarrow> nat \<times> nat \<times> nat \<Rightarrow> string" where
  \<comment> \<open>\<open>match[1]\<close>\<close>
  "captured s m = (case m of (e, gs, ge) \<Rightarrow> take (ge - gs) (drop gs s))"

definition regexMatch :: "atom list \<Rightarrow> string \<Rightarrow> string option" where
  \<comment> \<open>\<open>s.match(re)\<close> for a regular expression without the \<open>g\<close> flag: the leftmost match\<close>
  "regexMatch atoms s =
     map_option (captured s) (firstSome (\<lambda>i. matchAt atoms s i 0 0) [0 ..< Suc (length s)])"

fun scanFrom :: "atom list \<Rightarrow> string \<Rightarrow> nat list \<Rightarrow> nat \<Rightarrow> string list" where
  \<comment> \<open>the start indices still to try, and \<open>lastIndex\<close>\<close>
  "scanFrom atoms s [] lastIndex = []"
| "scanFrom atoms s (i # is) lastIndex =
     (if i < lastIndex then scanFrom atoms s is lastIndex
      else case matchAt atoms s i 0 0 of
             None \<Rightarrow> scanFrom atoms s is lastIndex
           | Some m \<Rightarrow> captured s m # scanFrom atoms s is (if fst m = i then Suc i else fst m))"

definition matchAll :: "atom list \<Rightarrow> string \<Rightarrow> string list" where
  \<comment> \<open>\<open>[...s.matchAll(re)]\<close> for a regular expression with the \<open>g\<close> flag, each match
      given by its first capture group\<close>
  "matchAll atoms s = scanFrom atoms s [0 ..< Suc (length s)] 0"

definition issueKeyAtoms :: "(char \<Rightarrow> bool) \<Rightarrow> atom list" where
  \<comment> \<open>\<open>([A-Z]{1,3}-\\d+)\<close>, with the letter class as a parameter for the \<open>i\<close> flag\<close>
  "issueKeyAtoms letter =
     [GroupOpen, Class letter 1 (Some 3), lit CHR ''-'', Class isDigit 1 None, GroupClose]"

definition branchPattern :: "atom list" where
  \<comment> \<open>\<open>/\\b([A-Z]{1,3}-\\d+)\\b/i\<close>\<close>
  "branchPattern = [WordBoundary] @ issueKeyAtoms (\<lambda>c. isUpper c \<or> isLower c) @ [WordBoundary]"

definition commitPatterns :: "atom list list" where
  \<comment> \<open>\<open>/\\[([A-Z]{1,3}-\\d+)\\]/g\<close>, \<open>/^([A-Z]{1,3}-\\d+):/g\<close>, \<open>/^([A-Z]{1,3}-\\d+)\\s/g\<close>\<close>
  "commitPatterns =
     [ [lit CHR ''[''] @ issueKeyAtoms isUpper @ [lit CHR '']''],
       [StartOfInput] @ issueKeyAtoms isUpper @ [lit CHR '':''],
       [StartOfInput] @ issueKeyAtoms isUpper @ [Class isSpace 1 (Some 1)] ]"

definition promptPattern :: "atom list" where
  \<comment> \<open>\<open>defaultPattern\<close> of \<open>extractFromPrompt\<close>: \<open>/\\b([A-Z]{1,3}-\\d+)\\b/g\<close>\<close>
  "promptPattern = [WordBoundary] @ issueKeyAtoms isUpper @ [WordBoundary]"

definition pathPattern :: "atom list" where
  \<comment> \<open>\<open>defaultPattern\<close> of \<open>extractFromPath\<close>: \<open>/\\/([A-Z]{1,3}-\\d+)\\//g\<close>\<close>
  "pathPattern = [lit CHR ''/''] @ issueKeyAtoms isUpper @ [lit CHR ''/'']"

definition toUpperCase :: "string \<Rightarrow> string" where
  \<comment> \<open>on ASCII text\<close>
  "toUpperCase s = map (\<lambda>c. if isLower c then char_of (of_char c - (32::nat)) else c) s"

section \<open>Issue extractor (lib/issue-extractor.js)\<close>

record issue =
  issueKey :: string
  source :: string
  confidence :: rat

text \<open>
  A custom pattern from the configuration is taken as the function that \<open>new
  RegExp(pattern, 'g')\<close> and \<open>matchAll\<close> compute from it: the subject string is mapped to
  the list of \<open>m[1] || m[0]\<close> over all matches \<open>m\<close>. A pattern that is no regular
  expression, for which \<open>new RegExp\<close> throws, is outside the model. The subject of an
  extractor is a string; \<open>null\<close> and the empty string are both falsy and are treated
  alike.
\<close>

type_synonym custom_pattern = "string \<Rightarrow> string list"

definition pushIfNew :: "string \<Rightarrow> rat \<Rightarrow> issue list \<Rightarrow> string \<Rightarrow> issue list" where
  \<comment> \<open>\<open>if (!results.find(r => r.issueKey === key)) results.push({...})\<close>\<close>
  "pushIfNew src conf results key =
     (if key \<in> issueKey ` set results then results
      else results @ [\<lparr>issueKey = key, source = src, confidence = conf\<rparr>])"

definition tryCustomPatterns ::
  "string \<Rightarrow> rat \<Rightarrow> string \<Rightarrow> custom_pattern list \<Rightarrow> issue list \<Rightarrow> issue list" where
  \<comment> \<open>the loop \<open>for (const pattern of patterns || [])\<close> shared by the four extractors\<close>
  "tryCustomPatterns src conf subject patterns results =
     foldl (\<lambda>res pattern.
              foldl (\<lambda>res' m. pushIfNew src conf res' (toUpperCase m)) res (pattern subject))
           results patterns"

definition extractFromBranch :: "string \<Rightarrow> custom_pattern list \<Rightarrow> issue list" where
  "extractFromBranch branchName patterns =
     (if branchName = [] then []
      else
        let results =
              (case regexMatch branchPattern branchName of
                 None \<Rightarrow> []
               | Some m \<Rightarrow> [\<lparr>issueKey = toUpperCase m, source = ''branch'', confidence = 1\<rparr>])
        in tryCustomPatterns ''branch'' 1 branchName patterns results)"

definition extractFromCommitMessage :: "string \<Rightarrow> custom_pattern list \<Rightarrow> issue list" where
  "extractFromCommitMessage msg patterns =
     (if msg = [] then []
      else
        let results =
              foldl (\<lambda>res pattern.
                       foldl (\<lambda>res' m. pushIfNew ''commit'' 1 res' (toUpperCase m)) res
                             (matchAll pattern msg))
                    [] commitPatterns
        in tryCustomPatterns ''commit'' 1 msg patterns results)"

definition extractFromPrompt :: "string \<Rightarrow> custom_pattern list \<Rightarrow> issue list" where
  "extractFromPrompt promptText patterns =
     (if promptText = [] then []
      else
        let results =
              foldl (\<lambda>res m. pushIfNew ''prompt'' (7 / 10) res (toUpperCase m)) []
                    (matchAll promptPattern promptText)
        in tryCustomPatterns ''prompt'' (7 / 10) promptText patterns results)"

definition extractFromPath :: "string \<Rightarrow> custom_pattern list \<Rightarrow> issue list" where
  "extractFromPath path patterns =
     (if path = [] then []
      else
        let results =
              foldl (\<lambda>res m. pushIfNew ''directory'' (1 / 2) res (toUpperCase m)) []
                    (matchAll pathPattern path)
        in tryCustomPatterns ''directory'' (1 / 2) path patterns results)"

text \<open>
  The \<open>Map\<close> of \<open>extractFromSession\<close> is an association list in insertion order:
  \<open>map.set\<close> of a key already present keeps its place, a new key goes to the end.
\<close>

definition updateIssueMap :: "(string \<times> issue) list \<Rightarrow> issue \<Rightarrow> (string \<times> issue) list" where
  "updateIssueMap m issue =
     (case map_of m (issueKey issue) of
        None \<Rightarrow> AList.update (issueKey issue) issue m
      | Some existing \<Rightarrow>
          if confidence issue > confidence existing
          then AList.update (issueKey issue) issue m
          else if confidence issue = confidence existing
          then AList.update (issueKey issue)
                 (existing\<lparr>source := source existing @ '','' @ source issue\<rparr>) m
          else m)"

record commit =
  commit_hash :: string
  c_timestamp :: int
  author :: string
  message :: string
  repo_path :: string

definition extractFromSession ::
  "session \<Rightarrow> commit list \<Rightarrow> custom_pattern list \<Rightarrow> issue list" where
  "extractFromSession sess commits patterns =
     (let allIssues0 = [];
          allIssues1 =
            (case prompts sess of
               [] \<Rightarrow> allIssues0
             | firstPrompt # _ \<Rightarrow>
                 if truthy (git_branch firstPrompt)
                 then foldl updateIssueMap allIssues0
                        (extractFromBranch (or_empty (git_branch firstPrompt)) patterns)
                 else allIssues0);
          allIssues2 =
            foldl (\<lambda>m c. foldl updateIssueMap m (extractFromCommitMessage (message c) patterns))
                  allIssues1 commits;
          allIssues3 =
            foldl (\<lambda>m p.
                     let m' = (if truthy (prompt_preview p)
                               then foldl updateIssueMap m
                                      (extractFromPrompt (or_empty (prompt_preview p)) patterns)
                               else m)
                     in if truthy (cwd p)
                        then foldl updateIssueMap m' (extractFromPath (or_empty (cwd p)) patterns)
                        else m')
                  allIssues2 (prompts sess)
      in map snd allIssues3)"

section \<open>Ingestion store (src/database.js)\<close>

text \<open>
  The tables of \<open>initDatabase\<close>, each a list of rows in insertion order. Columns filled
  by a default from the clock or by \<open>AUTOINCREMENT\<close> (\<open>created_at\<close>, \<open>processed_at\<close>,
  \<open>prompt_id\<close>) are left out, and of the issue cache only its key column is kept.
\<close>

record session_row =
  r_session_id :: string
  r_start_time :: int
  r_end_time :: int
  r_cwd :: "string option"
  r_duration_minutes :: rat
  r_prompt_count :: nat

record prompt_row =
  pr_session_id :: string
  pr_timestamp :: rat
  pr_prompt_preview :: "string option"
  pr_prompt_length :: nat
  pr_cwd :: "string option"
  pr_git_branch :: "string option"
  pr_git_remote :: "string option"

record issue_row =
  ir_session_id :: string
  ir_issue_key :: string
  ir_source :: string
  ir_confidence :: rat

record log_row =
  log_file :: string
  entries_count :: nat
  sessions_created :: nat
  errors_count :: nat

record tables =
  sessions :: "session_row list"
  prompts_table :: "prompt_row list"
  git_commits :: "commit list"
  session_commits :: "(string \<times> string) list"
  jira_issues :: "string list"
  session_issues :: "issue_row list"
  processing_log :: "log_row list"

datatype error =
    CheckConstraint
  | NotNullConstraint
  | ForeignKeyConstraint
  | PrimaryKeyConstraint
  | FileError       \<comment> \<open>the exception of \<open>parseLogFile\<close> for a file that cannot be read\<close>
  | NotAFunction    \<comment> \<open>the \<open>TypeError\<close> of calling a property that is \<open>undefined\<close>\<close>
  | RenameFailed    \<comment> \<open>the exception of \<open>renameSync\<close>\<close>

text \<open>
  The prepared statements of \<open>processLogs\<close>. Each takes the setting of foreign-key
  enforcement of the connection (the source leaves it at the driver's default) and the
  tables, and gives the new tables or the constraint that failed.
\<close>

definition sessionRow :: "session \<Rightarrow> rat \<Rightarrow> session_row" where
  \<comment> \<open>the values bound by \<open>insertSession.run\<close>\<close>
  "sessionRow s d =
     \<lparr>r_session_id = s_session_id s, r_start_time = start_time s, r_end_time = end_time s,
      r_cwd = s_cwd s, r_duration_minutes = d, r_prompt_count = prompt_count s\<rparr>"

definition insertSession :: "session \<Rightarrow> bool \<Rightarrow> tables \<Rightarrow> error + tables" where
  \<comment> \<open>\<open>INSERT OR REPLACE INTO sessions\<close>; \<open>duration_minutes REAL NOT NULL\<close>\<close>
  "insertSession s fk t =
     (case duration_minutes s of
        None \<Rightarrow> Inl NotNullConstraint
      | Some d \<Rightarrow>
          Inr (t\<lparr>sessions :=
                   filter (\<lambda>r. r_session_id r \<noteq> s_session_id s) (sessions t) @
                   [sessionRow s d]\<rparr>))"

definition promptRow :: "string \<Rightarrow> prompt \<Rightarrow> prompt_row" where
  \<comment> \<open>the values bound by \<open>insertPrompt.run\<close>\<close>
  "promptRow sid p =
     \<lparr>pr_session_id = sid, pr_timestamp = timestamp p, pr_prompt_preview = prompt_preview p,
      pr_prompt_length = prompt_length p, pr_cwd = cwd p, pr_git_branch = git_branch p,
      pr_git_remote = git_remote p\<rparr>"

definition insertPrompt :: "string \<Rightarrow> prompt \<Rightarrow> bool \<Rightarrow> tables \<Rightarrow> error + tables" where
  \<comment> \<open>\<open>INSERT INTO prompts\<close>; \<open>FOREIGN KEY (session_id) REFERENCES sessions\<close>\<close>
  "insertPrompt sid p fk t =
     (if fk \<and> sid \<notin> r_session_id ` set (sessions t) then Inl ForeignKeyConstraint
      else Inr (t\<lparr>prompts_table := prompts_table t @ [promptRow sid p]\<rparr>))"

definition insertCommit :: "commit \<Rightarrow> bool \<Rightarrow> tables \<Rightarrow> error + tables" where
  \<comment> \<open>\<open>INSERT OR IGNORE INTO git_commits\<close>, primary key \<open>commit_hash\<close>\<close>
  "insertCommit c fk t =
     (if commit_hash c \<in> commit_hash ` set (git_commits t) then Inr t
      else Inr (t\<lparr>git_commits := git_commits t @ [c]\<rparr>))"

definition insertSessionCommit :: "string \<Rightarrow> string \<Rightarrow> bool \<Rightarrow> tables \<Rightarrow> error + tables" where
  \<comment> \<open>\<open>INSERT OR IGNORE INTO session_commits\<close>, primary key \<open>(session_id, commit_hash)\<close>\<close>
  "insertSessionCommit sid h fk t =
     (if (sid, h) \<in> set (session_commits t) then Inr t
      else if fk \<and> (sid \<notin> r_session_id ` set (sessions t) \<or>
                      h \<notin> commit_hash ` set (git_commits t))
      then Inl ForeignKeyConstraint
      else Inr (t\<lparr>session_commits := session_commits t @ [(sid, h)]\<rparr>))"

definition allowedSources :: "string list" where
  \<comment> \<open>\<open>CHECK(source IN ('branch', 'commit', 'prompt', 'directory'))\<close>\<close>
  "allowedSources = [''branch'', ''commit'', ''prompt'', ''directory'']"

definition insertSessionIssue :: "string \<Rightarrow> issue \<Rightarrow> bool \<Rightarrow> tables \<Rightarrow> error + tables" where
  \<comment> \<open>\<open>INSERT OR REPLACE INTO session_issues\<close>, primary key
      \<open>(session_id, issue_key, source)\<close>; a failed \<open>CHECK\<close> aborts the statement\<close>
  "insertSessionIssue sid i fk t =
     (if source i \<notin> set allowedSources then Inl CheckConstraint
      else if \<not> (0 \<le> confidence i \<and> confidence i \<le> 1) then Inl CheckConstraint
      else if fk \<and> (sid \<notin> r_session_id ` set (sessions t) \<or> issueKey i \<notin> set (jira_issues t))
      then Inl ForeignKeyConstraint
      else Inr (t\<lparr>session_issues :=
                   filter (\<lambda>r. \<not> (ir_session_id r = sid \<and> ir_issue_key r = issueKey i \<and>
                                     ir_source r = source i)) (session_issues t) @
                   [\<lparr>ir_session_id = sid, ir_issue_key = issueKey i, ir_source = source i,
                     ir_confidence = confidence i\<rparr>]\<rparr>))"

definition insertLog :: "string \<Rightarrow> nat \<Rightarrow> nat \<Rightarrow> nat \<Rightarrow> bool \<Rightarrow> tables \<Rightarrow> error + tables" where
  \<comment> \<open>\<open>INSERT INTO processing_log\<close>, primary key \<open>log_file\<close>\<close>
  "insertLog f n k e fk t =
     (if f \<in> log_file ` set (processing_log t) then Inl PrimaryKeyConstraint
      else Inr (t\<lparr>processing_log := processing_log t @
                   [\<lparr>log_file = f, entries_count = n, sessions_created = k,
                     errors_count = e\<rparr>]\<rparr>))"

text \<open>
  A connection: the tables, whether a transaction is open on it, and the foreign-key
  setting. The journal records every statement that is run, with its table and whether
  a transaction was open at that moment; it is not part of the program and only serves
  to state which statements run and where.
\<close>

record db =
  data :: tables
  in_transaction :: bool
  foreign_keys :: bool
  journal :: "(string \<times> bool) list"

section \<open>Pipeline orchestrator (src/processor.js)\<close>

record config =
  sessionGapMinutes :: rat
  issueKeyPatterns :: "custom_pattern list"

text \<open>
  What \<open>processLogs\<close> takes from outside: the outcome of \<open>parseLogFile\<close> on a
  file, with the entries as the session builder reads them (a number for the timestamp, a
  string for the session key) or the exception of a file that cannot be read; the commits
  of one repository in a time window (\<open>getCommits\<close>, which catches its own failures);
  whether \<open>renameSync\<close> manages to move a file to the directory of processed files
  (\<open>False\<close> where it throws); and the library functions of \<open>generateSessionId\<close>.
\<close>

record env =
  parsedLog :: "string \<Rightarrow> error + (prompt list \<times> (nat \<times> string) list)"
  getCommits :: "string \<Rightarrow> int \<Rightarrow> int \<Rightarrow> commit list"
  renameSync :: "string \<Rightarrow> bool"
  crypto :: host

record state =
  db :: db
  intake :: "string list"       \<comment> \<open>files in the logs directory\<close>
  processed :: "string list"    \<comment> \<open>files moved to \<open>.processed\<close>\<close>
  totalEntries :: nat
  totalSessions :: nat
  totalCommits :: nat
  totalIssues :: nat
  errors :: nat

type_synonym action = "state \<Rightarrow> error option \<times> state"

definition run :: "string \<Rightarrow> (bool \<Rightarrow> tables \<Rightarrow> error + tables) \<Rightarrow> action" where
  \<comment> \<open>\<open>statement.run(...)\<close>: a failed statement changes no table and throws\<close>
  "run table stmt st =
     (let st' = st\<lparr>db := (db st)\<lparr>journal :=
                     journal (db st) @ [(table, in_transaction (db st))]\<rparr>\<rparr>
      in case stmt (foreign_keys (db st)) (data (db st)) of
           Inl e \<Rightarrow> (Some e, st')
         | Inr t \<Rightarrow> (None, st'\<lparr>db := (db st')\<lparr>data := t\<rparr>\<rparr>))"

definition seq :: "action \<Rightarrow> action \<Rightarrow> action" where
  \<comment> \<open>one statement after another; an exception skips the second\<close>
  "seq a b st = (case a st of (Some e, st') \<Rightarrow> (Some e, st') | (None, st') \<Rightarrow> b st')"

fun forEach :: "('a \<Rightarrow> action) \<Rightarrow> 'a list \<Rightarrow> action" where
  "forEach body [] st = (None, st)"
| "forEach body (x # xs) st =
     (case body x st of (Some e, st') \<Rightarrow> (Some e, st') | (None, st') \<Rightarrow> forEach body xs st')"

text \<open>
  \<open>db\<close> is the \<open>DatabaseSync\<close> of \<open>node:sqlite\<close> that \<open>getDatabase\<close> opens (database.js,
  lines 1 and 122). That class has the methods \<open>exec\<close>, \<open>prepare\<close> and \<open>close\<close>, which
  the source uses, and no method \<open>transaction\<close>: the expression \<open>db.transaction\<close> is
  \<open>undefined\<close>, and calling it throws a \<open>TypeError\<close> without running the function given
  to it. No other statement of \<open>processLogs\<close> opens a transaction.
\<close>

definition db_transaction :: "action \<Rightarrow> error + action" where
  \<comment> \<open>\<open>db.transaction(fn)\<close>, line 162: \<open>Inl\<close> the exception thrown, \<open>Inr\<close> the function
      returned\<close>
  "db_transaction fn = Inl NotAFunction"

definition uniqueInOrder :: "'a list \<Rightarrow> 'a list" where
  \<comment> \<open>\<open>[...new Set(xs)]\<close>: the first occurrence of each element, in order\<close>
  "uniqueInOrder xs = rev (remdups (rev xs))"

definition getCommitsFromRepos :: "env \<Rightarrow> string list \<Rightarrow> int \<Rightarrow> int \<Rightarrow> commit list" where
  "getCommitsFromRepos E repoPaths startTime endTime =
     (let uniqueRepos = uniqueInOrder (filter (\<lambda>r. r \<noteq> []) repoPaths);
          allCommits = concat (map (\<lambda>repoPath. getCommits E repoPath startTime endTime) uniqueRepos)
      in sort_key c_timestamp allCommits)"

definition groupBySession :: "prompt list \<Rightarrow> (string \<times> prompt list) list" where
  "groupBySession entries =
     foldl (\<lambda>m entry.
              case map_of m (session_id entry) of
                None \<Rightarrow> m @ [(session_id entry, [entry])]
              | Some es \<Rightarrow> AList.update (session_id entry) (es @ [entry]) m)
           [] entries"

definition repoPathsOf :: "session \<Rightarrow> string list" where
  \<comment> \<open>\<open>session.prompts.map(p => p.cwd).filter(Boolean)\<close>\<close>
  "repoPathsOf sess = map or_empty (filter truthy (map cwd (prompts sess)))"

definition linkCommit :: "string \<Rightarrow> commit \<Rightarrow> action" where
  "linkCommit sid c =
     seq (run ''git_commits'' (insertCommit c))
         (run ''session_commits'' (insertSessionCommit sid (commit_hash c)))"

definition correlateAndExtract :: "env \<Rightarrow> config \<Rightarrow> session \<Rightarrow> action" where
  \<comment> \<open>lines 193-229, the body of \<open>if (repoPaths.length > 0)\<close>\<close>
  "correlateAndExtract E cfg sess =
     (let commits = getCommitsFromRepos E (repoPathsOf sess) (start_time sess) (end_time sess);
          issues = extractFromSession sess commits (issueKeyPatterns cfg)
      in seq (forEach (linkCommit (s_session_id sess)) commits)
        (seq (\<lambda>st. (None, st\<lparr>totalCommits := totalCommits st + length commits\<rparr>))
        (seq (forEach (\<lambda>i. run ''session_issues'' (insertSessionIssue (s_session_id sess) i)) issues)
             (\<lambda>st. (None, st\<lparr>totalIssues := totalIssues st + length issues\<rparr>)))))"

definition persistSession :: "env \<Rightarrow> config \<Rightarrow> session \<Rightarrow> action" where
  \<comment> \<open>lines 164-230, one iteration of \<open>for (const session of allSessions)\<close> in the
      function given to \<open>db.transaction\<close>\<close>
  "persistSession E cfg sess =
     seq (run ''sessions'' (insertSession sess))
    (seq (forEach (\<lambda>p. run ''prompts'' (insertPrompt (s_session_id sess) p)) (prompts sess))
         (if repoPathsOf sess \<noteq> [] then correlateAndExtract E cfg sess
          else (\<lambda>st. (None, st))))"

definition buildSessions :: "env \<Rightarrow> config \<Rightarrow> prompt list \<Rightarrow> session list" where
  \<comment> \<open>lines 129-135\<close>
  "buildSessions E cfg entries =
     concat (map (\<lambda>g. groupSessions (crypto E) (snd g) (sessionGapMinutes cfg))
                 (groupBySession entries))"

definition moveToProcessed :: "env \<Rightarrow> string \<Rightarrow> action" where
  \<comment> \<open>\<open>renameSync(logFile, processedPath)\<close>, lines 243-244\<close>
  "moveToProcessed E logFile st =
     (if renameSync E logFile
      then (None, st\<lparr>intake := filter (\<lambda>f. f \<noteq> logFile) (intake st),
                       processed := processed st @ [logFile]\<rparr>)
      else (Some RenameFailed, st))"

definition alreadyProcessed :: "state \<Rightarrow> string \<Rightarrow> bool" where
  \<comment> \<open>\<open>SELECT 1 FROM processing_log WHERE log_file = ?\<close>\<close>
  "alreadyProcessed st logFile = (logFile \<in> log_file ` set (processing_log (data (db st))))"

definition tryProcessFile :: "env \<Rightarrow> config \<Rightarrow> string \<Rightarrow> action" where
  \<comment> \<open>lines 100-246, the \<open>try\<close> block of one log file\<close>
  "tryProcessFile E cfg logFile st =
     (if alreadyProcessed st logFile then (None, st)
      else
        case parsedLog E logFile of
          Inl e \<Rightarrow> (Some e, st)
        | Inr (entries, parseErrors) \<Rightarrow>
            let st1 = st\<lparr>errors := errors st + length parseErrors,
                         totalEntries := totalEntries st + length entries\<rparr>
            in if entries = []
               then run ''processing_log'' (insertLog logFile 0 0 (length parseErrors)) st1
               else
                 let allSessions = buildSessions E cfg entries;
                     st2 = st1\<lparr>totalSessions := totalSessions st1 + length allSessions\<rparr>
                 in case db_transaction (forEach (persistSession E cfg) allSessions) of
                      Inl e \<Rightarrow> (Some e, st2)
                    | Inr transaction \<Rightarrow>
                        seq transaction
                          (seq (run ''processing_log''
                                  (insertLog logFile (length entries) (length allSessions)
                                     (length parseErrors)))
                               (moveToProcessed E logFile)) st2)"

definition processFile :: "env \<Rightarrow> config \<Rightarrow> string \<Rightarrow> state \<Rightarrow> state" where
  \<comment> \<open>with the \<open>catch\<close> of lines 247-250\<close>
  "processFile E cfg logFile st =
     (case tryProcessFile E cfg logFile st of
        (None, st') \<Rightarrow> st'
      | (Some e, st') \<Rightarrow> st'\<lparr>errors := errors st' + 1\<rparr>)"

definition processLogs :: "env \<Rightarrow> config \<Rightarrow> string list \<Rightarrow> state \<Rightarrow> state" where
  \<comment> \<open>lines 96-251, over the log files found at the start of the pass\<close>
  "processLogs E cfg logFiles st = foldl (\<lambda>s f. processFile E cfg f s) st logFiles"

section \<open>Predicates and sample data of the statements\<close>

definition gapMillis :: "rat \<Rightarrow> rat" where
  \<comment> \<open>\<open>gapMinutes * 60 * 1000\<close>, line 20\<close>
  "gapMillis g = binary64 (binary64 (g * 60) * 1000)"

definition promptMillis :: "prompt \<Rightarrow> rat" where
  \<comment> \<open>\<open>prompt.timestamp * 1000\<close>, line 23\<close>
  "promptMillis p = binary64 (timestamp p * 1000)"

definition measuredGap :: "prompt \<Rightarrow> prompt \<Rightarrow> rat" where
  \<comment> \<open>the gap from \<open>p\<close> to \<open>q\<close> as line 26 computes it, in milliseconds\<close>
  "measuredGap p q = binary64 (promptMillis q - promptMillis p)"

fun within_gap :: "rat \<Rightarrow> prompt list \<Rightarrow> bool" where
  \<comment> \<open>neighbours are in time order and their measured gap is at most that of \<open>g\<close>
      minutes\<close>
  "within_gap g [] = True"
| "within_gap g [p] = True"
| "within_gap g (p # q # rest) =
     (timestamp p \<le> timestamp q \<and> measuredGap p q \<le> gapMillis g \<and> within_gap g (q # rest))"

fun between_gap :: "rat \<Rightarrow> prompt list list \<Rightarrow> bool" where
  \<comment> \<open>from the end of each list to the start of the next the measured gap is more than
      that of \<open>g\<close> minutes\<close>
  "between_gap g [] = True"
| "between_gap g [ps] = True"
| "between_gap g (ps # qs # rest) =
     (gapMillis g < measuredGap (last ps) (hd qs) \<and> between_gap g (qs # rest))"

definition open_ok :: "rat \<Rightarrow> prompt list \<Rightarrow> session \<Rightarrow> bool" where
  \<comment> \<open>the invariant of the open session, with the entries still to come\<close>
  "open_ok g xs c =
     (prompts c \<noteq> [] \<and> within_gap g (prompts c) \<and>
      lastPromptTime c = promptMillis (last (prompts c)) \<and>
      (\<forall>x\<in>set xs. timestamp (last (prompts c)) \<le> timestamp x))"

definition session_id_ok :: "host \<Rightarrow> session \<Rightarrow> bool" where
  \<comment> \<open>the identifier is that of the first entry\<close>
  "session_id_ok H s =
     (prompts s \<noteq> [] \<and> s_session_id s = generateSessionId H (hd (prompts s)))"

definition exampleHost :: host where
  \<comment> \<open>stand-ins for the two library functions, for statements at sample data\<close>
  "exampleHost = \<lparr> sha256_hex = (\<lambda>s. s), number_to_string = (\<lambda>t. ''0'') \<rparr>"

definition entryAt :: "rat \<Rightarrow> prompt" where
  \<comment> \<open>the entry \<open>{t, key: "a"}\<close> of the scenarios\<close>
  "entryAt t =
     \<lparr> timestamp = t, session_id = ''a'', prompt_preview = None, prompt_length = 0,
       cwd = None, git_branch = None, git_remote = None \<rparr>"

definition exampleEarly :: prompt where
  \<comment> \<open>an entry with the timestamp written \<open>1700000120.6192474\<close>\<close>
  "exampleEarly = entryAt (binary64 (17000001206192474 / 10000000))"

definition exampleLate :: prompt where
  \<comment> \<open>an entry with the timestamp written \<open>1700001920.6192477\<close>\<close>
  "exampleLate = entryAt (binary64 (17000019206192477 / 10000000))"

fun commaJoin :: "string list \<Rightarrow> string" where
  \<comment> \<open>the labels as \<open>updateIssueMap\<close> strings them together\<close>
  "commaJoin [] = []"
| "commaJoin [s] = s"
| "commaJoin (s # t # rest) = s @ '','' @ commaJoin (t # rest)"

definition foundIssues :: "session \<Rightarrow> commit list \<Rightarrow> custom_pattern list \<Rightarrow> issue list" where
  \<comment> \<open>every occurrence \<open>extractFromSession\<close> passes to \<open>updateIssueMap\<close>, in that order\<close>
  "foundIssues sess commits patterns =
     (case prompts sess of
        [] \<Rightarrow> []
      | firstPrompt # _ \<Rightarrow>
          if truthy (git_branch firstPrompt)
          then extractFromBranch (or_empty (git_branch firstPrompt)) patterns else [])
     @ concat (map (\<lambda>c. extractFromCommitMessage (message c) patterns) commits)
     @ concat (map (\<lambda>p. (if truthy (prompt_preview p)
                           then extractFromPrompt (or_empty (prompt_preview p)) patterns else [])
                        @ (if truthy (cwd p)
                           then extractFromPath (or_empty (cwd p)) patterns else []))
                   (prompts sess))"

definition resolved :: "issue list \<Rightarrow> string \<Rightarrow> issue option \<Rightarrow> bool" where
  \<comment> \<open>what the map holds for key \<open>k\<close> once the occurrences \<open>xs\<close> have gone through it\<close>
  "resolved xs k v =
     (case v of
        None \<Rightarrow> filter (\<lambda>f. issueKey f = k) xs = []
      | Some r \<Rightarrow>
          issueKey r = k \<and>
          (\<forall>f\<in>set xs. issueKey f = k \<longrightarrow> confidence f \<le> confidence r) \<and>
          filter (\<lambda>f. issueKey f = k \<and> confidence f = confidence r) xs \<noteq> [] \<and>
          source r = commaJoin (map source (filter (\<lambda>f. issueKey f = k \<and> confidence f = confidence r) xs)))"

definition examplePrompt :: prompt where
  \<comment> \<open>an entry whose branch and preview name the issue \<open>AB-1\<close>\<close>
  "examplePrompt =
     \<lparr> timestamp = 1700000000, session_id = ''a'', prompt_preview = Some ''see AB-1'',
       prompt_length = 8,
       cwd = Some ''/x'', git_branch = Some ''me/AB-1-fix'', git_remote = None \<rparr>"

definition exampleCommit :: commit where
  \<comment> \<open>a commit whose message names the same issue\<close>
  "exampleCommit =
     \<lparr> commit_hash = ''h1'', c_timestamp = 1700000000, author = ''me'',
       message = ''[AB-1] done'',
       repo_path = ''/x'' \<rparr>"

definition exampleSession :: session where
  \<comment> \<open>the one session of that entry\<close>
  "exampleSession = hd (groupSessions exampleHost [examplePrompt] 30)"

definition labelled :: "string \<Rightarrow> rat \<Rightarrow> issue list \<Rightarrow> bool" where
  \<comment> \<open>all records carry the label and the confidence of one extractor\<close>
  "labelled src conf res = (\<forall>r\<in>set res. source r = src \<and> confidence r = conf)"

definition emptyTables :: tables where
  "emptyTables =
     \<lparr> sessions = [], prompts_table = [], git_commits = [], session_commits = [],
       jira_issues = [], session_issues = [], processing_log = [] \<rparr>"

definition exampleState :: state where
  \<comment> \<open>an empty database on a connection as \<open>getDatabase\<close> opens it, with foreign keys
      enforced, and one file waiting\<close>
  "exampleState =
     \<lparr> db = \<lparr> data = emptyTables, in_transaction = False, foreign_keys = True,
              journal = [] \<rparr>,
       intake = [''logs/prompts-2025-01.jsonl''], processed = [],
       totalEntries = 0, totalSessions = 0, totalCommits = 0, totalIssues = 0, errors = 0 \<rparr>"

definition exampleEnv :: "prompt list \<Rightarrow> env" where
  \<comment> \<open>every log file holds the given entries and can be moved; the repository \<open>/x\<close>
      has one commit\<close>
  "exampleEnv entries =
     \<lparr> parsedLog = (\<lambda>f. Inr (entries, [])),
       getCommits = (\<lambda>repoPath startTime endTime. if repoPath = ''/x'' then [exampleCommit] else []),
       renameSync = (\<lambda>f. True),
       crypto = exampleHost \<rparr>"


definition exampleConfig :: config where
  "exampleConfig = \<lparr> sessionGapMinutes = 30, issueKeyPatterns = [] \<rparr>"

definition exampleLogFile :: string where
  "exampleLogFile = ''logs/prompts-2025-01.jsonl''"

definition exampleNoCwdSession :: session where
  \<comment> \<open>the session of the same entry without its \<open>cwd\<close>\<close>
  "exampleNoCwdSession = hd (groupSessions exampleHost [examplePrompt\<lparr>cwd := None\<rparr>] 30)"

definition exampleLine :: json where
  \<comment> \<open>the value of a well-formed log line\<close>
  "exampleLine = JObject [(''timestamp'', JNumber 1700000000), (''session_id'', JString ''a'')]"

definition exampleParse :: "string \<Rightarrow> json option" where
  \<comment> \<open>a stand-in for \<open>JSON.parse\<close> on three sample lines; every other line is malformed\<close>
  "exampleParse line =
     (if line = ''ok'' then Some exampleLine
      else if line = ''null'' then Some JNull
      else if line = ''zero'' then Some (JObject [(''timestamp'', JNumber 0), (''session_id'', JString ''a'')])
      else None)"

section \<open>Rounding: whole numbers\<close>

lemma roundHalfEven_of_int: "roundHalfEven (of_int m) = m"
  by (simp add: roundHalfEven_def)

lemma bitlen_le_53:
  assumes "0 < n" and "n < 2 ^ 53"
  shows "bitlen n \<le> 53"
proof -
  from bitlen_bounds [OF assms(1)] have "(2::int) ^ nat (bitlen n - 1) \<le> n" by simp
  with assms(2) have "(2::int) ^ nat (bitlen n - 1) < 2 ^ 53" by linarith
  then have "nat (bitlen n - 1) < 53"
    by (simp only: power_strict_increasing_iff one_less_numeral_iff semiring_norm)
  then show ?thesis by linarith
qed

text \<open>
  A whole number below \<open>2^53\<close> in magnitude is a binary64 number: rounding leaves it as
  it is.
\<close>

lemma binary64_of_int:
  assumes "\<bar>n\<bar> < 2 ^ 53"
  shows "binary64 (of_int n) = of_int n"
proof (cases "n = 0")
  case True
  then show ?thesis by (simp add: binary64_def)
next
  case False
  then have pos: "0 < \<bar>n\<bar>" by simp
  have ge1: "(1::rat) \<le> \<bar>of_int n\<bar>"
    using pos by (simp flip: of_int_abs)
  have ex: "exponentOf (of_int n) = bitlen \<bar>n\<bar> - 1"
    using ge1 by (simp add: exponentOf_def Let_def flip: of_int_abs)
  have "bitlen \<bar>n\<bar> \<le> 53" using pos assms by (rule bitlen_le_53)
  then have e_le: "max (exponentOf (of_int n) - 52) (- 1074) \<le> 0" using ex by simp
  define k where "k = nat (- max (exponentOf (of_int n) - 52) (- 1074))"
  have p: "pow2 (max (exponentOf (of_int n) - 52) (- 1074)) = 1 / 2 ^ k"
    using e_le by (auto simp: pow2_def k_def)
  have "of_int n / (1 / 2 ^ k) = (of_int (n * 2 ^ k) :: rat)" by simp
  then have "roundHalfEven (of_int n / (1 / 2 ^ k)) = n * 2 ^ k"
    by (simp only: roundHalfEven_of_int)
  then show ?thesis using False by (simp add: binary64_def Let_def p)
qed

lemma binary64_numeral:
  "(numeral k :: int) < 9007199254740992 \<Longrightarrow> binary64 (numeral k) = numeral k"
  using binary64_of_int [of "numeral k"] by simp

lemma binary64_zero: "binary64 0 = 0"
  by (simp add: binary64_def)

section \<open>Session builder: gaps, durations, identifiers\<close>

lemma within_gap_snoc:
  "within_gap g (ps @ [p]) =
     (within_gap g ps \<and>
      (ps \<noteq> [] \<longrightarrow> timestamp (last ps) \<le> timestamp p \<and>
                   measuredGap (last ps) p \<le> gapMillis g))"
  by (induction g ps rule: within_gap.induct) auto

lemma between_gap_snoc:
  "pss \<noteq> [] \<Longrightarrow>
   between_gap g (pss @ [ps]) =
     (between_gap g pss \<and> gapMillis g < measuredGap (last (last pss)) (hd ps))"
  by (induction g pss rule: between_gap.induct) auto

lemma between_gap_extend_last:
  "ps \<noteq> [] \<Longrightarrow> between_gap g (pss @ [ps @ [p]]) = between_gap g (pss @ [ps])"
  by (induction g pss rule: between_gap.induct) auto

lemma within_gap_nth:
  "within_gap g ps \<Longrightarrow> Suc i < length ps \<Longrightarrow>
   timestamp (ps ! i) \<le> timestamp (ps ! Suc i) \<and>
   measuredGap (ps ! i) (ps ! Suc i) \<le> gapMillis g"
proof (induction g ps arbitrary: i rule: within_gap.induct)
  case (3 g p q rest)
  then show ?case by (cases i) auto
qed auto

lemma between_gap_nth:
  "between_gap g pss \<Longrightarrow> Suc j < length pss \<Longrightarrow>
   gapMillis g < measuredGap (last (pss ! j)) (hd (pss ! Suc j))"
proof (induction g pss arbitrary: j rule: between_gap.induct)
  case (3 g ps qs rest)
  then show ?case by (cases j) auto
qed auto

lemma prompts_finalize [simp]:
  "prompts (finalizePrevious c) = prompts c" "prompts (finalizeLast c) = prompts c"
  by (simp_all add: finalizePrevious_def finalizeLast_def)

text \<open>
  The loop keeps every closed session and the open one within the gap as it measures
  it, and starts each session with a measured gap above the limit to the one before it.
\<close>

lemma groupLoop_gaps:
  assumes "sorted (map timestamp xs)"
    and "\<forall>s\<in>set acc. prompts s \<noteq> [] \<and> within_gap g (prompts s)"
    and "case cur of None \<Rightarrow> acc = [] | Some c \<Rightarrow> open_ok g xs c"
    and "between_gap g (map prompts acc @ (case cur of None \<Rightarrow> [] | Some c \<Rightarrow> [prompts c]))"
  shows "(\<forall>s\<in>set (groupLoop H (gapMillis g) xs cur acc).
            prompts s \<noteq> [] \<and> within_gap g (prompts s))
       \<and> between_gap g (map prompts (groupLoop H (gapMillis g) xs cur acc))"
  using assms
proof (induction xs arbitrary: cur acc)
  case Nil
  then show ?case by (auto simp: open_ok_def split: option.splits)
next
  case (Cons x xs)
  let ?pt = "binary64 (timestamp x * 1000)"
  let ?new = "addPrompt (newSession H x ?pt) x ?pt"
  let ?goal = "\<lambda>c ss. (\<forall>s\<in>set (groupLoop H (gapMillis g) xs (Some c) ss).
                          prompts s \<noteq> [] \<and> within_gap g (prompts s))
                    \<and> between_gap g (map prompts (groupLoop H (gapMillis g) xs (Some c) ss))"
  have sorted_xs: "sorted (map timestamp xs)"
    and le_x: "\<forall>y\<in>set xs. timestamp x \<le> timestamp y"
    using Cons.prems(1) by auto
  have new_ok: "open_ok g xs ?new"
    using le_x by (simp add: open_ok_def addPrompt_def newSession_def promptMillis_def)
  have new_prompts: "prompts ?new = [x]"
    by (simp add: addPrompt_def newSession_def)
  show ?case
  proof (cases cur)
    case None
    with Cons.prems have "acc = []" by simp
    then have "?goal ?new acc"
      using sorted_xs new_ok new_prompts by (intro Cons.IH) auto
    then show ?thesis using None by (simp add: Let_def)
  next
    case (Some c)
    with Cons.prems have c_ok: "open_ok g (x # xs) c" by simp
    have measured: "binary64 (?pt - lastPromptTime c) = measuredGap (last (prompts c)) x"
      using c_ok by (simp add: open_ok_def measuredGap_def promptMillis_def)
    show ?thesis
    proof (cases "binary64 (?pt - lastPromptTime c) > gapMillis g")
      case True
      have gap: "gapMillis g < measuredGap (last (prompts c)) x"
        using True measured by simp
      have "?goal ?new (acc @ [finalizePrevious c])"
      proof (intro Cons.IH)
        show "sorted (map timestamp xs)" by (rule sorted_xs)
        show "\<forall>s\<in>set (acc @ [finalizePrevious c]).
                prompts s \<noteq> [] \<and> within_gap g (prompts s)"
          using Cons.prems(2) c_ok by (auto simp: open_ok_def)
        show "case Some ?new of None \<Rightarrow> acc @ [finalizePrevious c] = []
              | Some c \<Rightarrow> open_ok g xs c"
          using new_ok by simp
        have "between_gap g ((map prompts acc @ [prompts c]) @ [[x]])"
          using Cons.prems(4) Some gap
            between_gap_snoc [of "map prompts acc @ [prompts c]" g "[x]"] by simp
        then show "between_gap g (map prompts (acc @ [finalizePrevious c]) @
                     (case Some ?new of None \<Rightarrow> [] | Some c \<Rightarrow> [prompts c]))"
          by (simp add: new_prompts)
      qed
      then show ?thesis using Some True by (simp add: Let_def)
    next
      case False
      let ?ext = "addPrompt c x ?pt"
      have le: "measuredGap (last (prompts c)) x \<le> gapMillis g"
        using False measured by simp
      have ge: "timestamp (last (prompts c)) \<le> timestamp x"
        using c_ok by (simp add: open_ok_def)
      have ext_prompts: "prompts ?ext = prompts c @ [x]"
        by (simp add: addPrompt_def)
      have ext_ok: "open_ok g xs ?ext"
        using c_ok le ge le_x
        by (simp add: open_ok_def addPrompt_def within_gap_snoc promptMillis_def)
      have "?goal ?ext acc"
      proof (intro Cons.IH)
        show "sorted (map timestamp xs)" by (rule sorted_xs)
        show "\<forall>s\<in>set acc. prompts s \<noteq> [] \<and> within_gap g (prompts s)"
          by (rule Cons.prems(2))
        show "case Some ?ext of None \<Rightarrow> acc = [] | Some c \<Rightarrow> open_ok g xs c"
          using ext_ok by simp
        have "prompts c \<noteq> []" using c_ok by (simp add: open_ok_def)
        then show "between_gap g (map prompts acc @
                     (case Some ?ext of None \<Rightarrow> [] | Some c \<Rightarrow> [prompts c]))"
          using Cons.prems(4) Some by (simp add: ext_prompts between_gap_extend_last)
      qed
      then show ?thesis using Some False by (simp add: Let_def)
    qed
  qed
qed

lemma groupSessions_gaps_rec:
  "(\<forall>s\<in>set (groupSessions H ps g). prompts s \<noteq> [] \<and> within_gap g (prompts s))
     \<and> between_gap g (map prompts (groupSessions H ps g))"
proof (cases "ps = []")
  case True
  then show ?thesis by (simp add: groupSessions_def)
next
  case False
  have "(\<forall>s\<in>set (groupLoop H (gapMillis g) (sort_key timestamp ps) None []).
           prompts s \<noteq> [] \<and> within_gap g (prompts s))
       \<and> between_gap g (map prompts (groupLoop H (gapMillis g) (sort_key timestamp ps) None []))"
    by (rule groupLoop_gaps) simp_all
  then show ?thesis using False by (simp add: groupSessions_def gapMillis_def)
qed

text \<open>
  A property of closed sessions that the two finalisations establish from a property of
  the open session holds of every session the loop returns.
\<close>

lemma groupLoop_all:
  assumes "\<forall>s\<in>set acc. P s"
    and "case cur of None \<Rightarrow> True | Some c \<Rightarrow> Q c"
    and fresh: "\<And>x pt. Q (addPrompt (newSession H x pt) x pt)"
    and extend: "\<And>c x pt. Q c \<Longrightarrow> Q (addPrompt c x pt)"
    and closeP: "\<And>c. Q c \<Longrightarrow> P (finalizePrevious c)"
    and closeL: "\<And>c. Q c \<Longrightarrow> P (finalizeLast c)"
  shows "\<forall>s\<in>set (groupLoop H gm xs cur acc). P s"
  using assms(1,2)
proof (induction xs arbitrary: cur acc)
  case Nil
  then show ?case by (auto simp: closeL split: option.splits)
next
  case (Cons x xs)
  let ?pt = "binary64 (timestamp x * 1000)"
  show ?case
  proof (cases cur)
    case None
    have "\<forall>s\<in>set (groupLoop H gm xs (Some (addPrompt (newSession H x ?pt) x ?pt)) acc). P s"
      using Cons.prems(1) fresh by (intro Cons.IH) simp_all
    then show ?thesis using None by (simp add: Let_def)
  next
    case (Some c)
    then have c: "Q c" using Cons.prems by simp
    have a: "\<forall>s\<in>set (groupLoop H gm xs (Some (addPrompt (newSession H x ?pt) x ?pt))
                         (acc @ [finalizePrevious c])). P s"
      using Cons.prems(1) fresh closeP [OF c] by (intro Cons.IH) simp_all
    have b: "\<forall>s\<in>set (groupLoop H gm xs (Some (addPrompt c x ?pt)) acc). P s"
      using Cons.prems(1) extend [OF c] by (intro Cons.IH) simp_all
    show ?thesis using Some a b by (simp add: Let_def)
  qed
qed

lemma groupSessions_all:
  assumes "\<And>x pt. Q (addPrompt (newSession H x pt) x pt)"
    and "\<And>c x pt. Q c \<Longrightarrow> Q (addPrompt c x pt)"
    and "\<And>c. Q c \<Longrightarrow> P (finalizePrevious c)"
    and "\<And>c. Q c \<Longrightarrow> P (finalizeLast c)"
  shows "\<forall>s\<in>set (groupSessions H ps g). P s"
proof (cases "ps = []")
  case True
  then show ?thesis by (simp add: groupSessions_def)
next
  case False
  have "\<forall>s\<in>set (groupLoop H (gapMillis g) (sort_key timestamp ps) None []). P s"
    by (rule groupLoop_all [where Q = Q]) (simp_all add: assms)
  then show ?thesis using False by (simp add: groupSessions_def gapMillis_def)
qed

lemma groupSessions_ids: "\<forall>s\<in>set (groupSessions H ps g). session_id_ok H s"
  by (rule groupSessions_all [where Q = "session_id_ok H"])
     (simp_all add: session_id_ok_def addPrompt_def newSession_def finalizePrevious_def
        finalizeLast_def)

lemma groupSessions_finalized: "\<forall>s\<in>set (groupSessions H ps g). duration_minutes s \<noteq> None"
  by (rule groupSessions_all [where Q = "\<lambda>c. True"])
     (simp_all add: finalizePrevious_def finalizeLast_def)

text \<open>
  The two finalisations differ: every session but the last one returned was closed inside
  the loop and has its span divided by 1000 and by 60, the last one has it divided by 60.
\<close>

lemma groupLoop_durations:
  assumes "\<forall>s\<in>set acc. duration_minutes s =
             Some ((of_int (end_time s) - of_int (start_time s)) / 1000 / 60)"
    and "cur \<noteq> None \<or> xs \<noteq> []"
  shows "groupLoop H gm xs cur acc \<noteq> [] \<and>
         (\<forall>s\<in>set (butlast (groupLoop H gm xs cur acc)).
            duration_minutes s = Some ((of_int (end_time s) - of_int (start_time s)) / 1000 / 60)) \<and>
         duration_minutes (last (groupLoop H gm xs cur acc)) =
           Some ((of_int (end_time (last (groupLoop H gm xs cur acc))) -
                  of_int (start_time (last (groupLoop H gm xs cur acc)))) / 60)"
  using assms
proof (induction xs arbitrary: cur acc)
  case Nil
  then obtain c where "cur = Some c" by auto
  then show ?case using Nil.prems(1) by (simp add: finalizeLast_def)
next
  case (Cons x xs)
  let ?pt = "binary64 (timestamp x * 1000)"
  show ?case
  proof (cases cur)
    case None
    then show ?thesis
      using Cons.IH [of acc "Some (addPrompt (newSession H x ?pt) x ?pt)"] Cons.prems(1)
      by (simp add: Let_def)
  next
    case (Some c)
    have closed: "\<forall>s\<in>set (acc @ [finalizePrevious c]). duration_minutes s =
             Some ((of_int (end_time s) - of_int (start_time s)) / 1000 / 60)"
      using Cons.prems(1) by (simp add: finalizePrevious_def)
    show ?thesis
      using Some Cons.IH [OF closed, of "Some (addPrompt (newSession H x ?pt) x ?pt)"]
        Cons.IH [OF Cons.prems(1), of "Some (addPrompt c x ?pt)"]
      by (simp add: Let_def)
  qed
qed

lemma groupSessions_durations:
  assumes "ps \<noteq> []"
  shows "groupSessions H ps g \<noteq> [] \<and>
         (\<forall>s\<in>set (butlast (groupSessions H ps g)).
            duration_minutes s = Some ((of_int (end_time s) - of_int (start_time s)) / 1000 / 60)) \<and>
         duration_minutes (last (groupSessions H ps g)) =
           Some ((of_int (end_time (last (groupSessions H ps g))) -
                  of_int (start_time (last (groupSessions H ps g)))) / 60)"
proof -
  have "sort_key timestamp ps \<noteq> []" using assms by (metis length_sort length_0_conv)
  then have "None \<noteq> (None :: session option) \<or> sort_key timestamp ps \<noteq> []" by simp
  from groupLoop_durations [OF _ this, of "[]" H "gapMillis g"] show ?thesis
    using assms by (simp add: groupSessions_def gapMillis_def)
qed

lemmas session_builder_defs =
  groupSessions_def addPrompt_def newSession_def finalizePrevious_def finalizeLast_def
  generateSessionId_def entryAt_def exampleHost_def truthy_def or_empty_def
  binary64_zero binary64_numeral

text \<open>
  C2: every session returned by \<open>groupSessions\<close> has \<open>duration_minutes\<close> equal to
  \<open>(end_time - start_time) / 60\<close>, not only the last one. The code does this for the
  last session only: a session closed inside the loop gets
  \<open>(end_time - start_time) / 1000 / 60\<close>, as \<open>groupSessions_durations\<close> shows for every
  input. For entries at 0 s, 600 s and 3600 s with a gap of 30 minutes the first session
  runs from 0 to 600 and is given 1/100 of a minute, where the claim asks for 10 minutes.
\<close>

theorem groupSessions_duration_first_session:
  "map (\<lambda>s. (start_time s, end_time s, duration_minutes s))
     (groupSessions exampleHost [entryAt 0, entryAt 600, entryAt 3600] 30)
   = [(0, 600, Some (1 / 100)), (3600, 3600, Some 0)]
   \<and> (of_int 600 - of_int 0) / 60 = (10 :: rat)"
  by (simp add: session_builder_defs)

text \<open>
  C3, as stated: within a session two neighbouring entries are at most \<open>gapMinutes\<close>
  apart. This fails for the two entries whose timestamps are the numbers written
  \<open>1700000120.6192474\<close> and \<open>1700001920.6192477\<close> with a gap of 30 minutes. They are
  1800 seconds and \<open>2^-22\<close> of a second apart, which is more than 30 minutes, and
  \<open>groupSessions\<close> puts them into one session: their products with 1000 round to two
  numbers that are exactly 1800000 apart, which is not more than \<open>30 * 60 * 1000\<close>.
\<close>

theorem groupSessions_gap_exceeded:
  "map prompts (groupSessions exampleHost [exampleEarly, exampleLate] 30) =
     [[exampleEarly, exampleLate]] \<and>
   timestamp exampleLate - timestamp exampleEarly = 30 * 60 + 1 / 2 ^ 22 \<and>
   30 * 60 < timestamp exampleLate - timestamp exampleEarly \<and>
   measuredGap exampleEarly exampleLate = 1800000 \<and>
   gapMillis 30 = 1800000"
  by code_simp

text \<open>
  Every entry of a returned session is one of the entries given.
\<close>

lemma groupLoop_members:
  assumes "\<forall>s\<in>set acc. set (prompts s) \<subseteq> S"
    and "case cur of None \<Rightarrow> True | Some c \<Rightarrow> set (prompts c) \<subseteq> S"
    and "set xs \<subseteq> S"
  shows "\<forall>s\<in>set (groupLoop H gm xs cur acc). set (prompts s) \<subseteq> S"
  using assms
proof (induction xs arbitrary: cur acc)
  case Nil
  then show ?case by (auto split: option.splits)
next
  case (Cons x xs)
  let ?pt = "binary64 (timestamp x * 1000)"
  have x: "x \<in> S" and xs: "set xs \<subseteq> S" using Cons.prems(3) by simp_all
  have new: "set (prompts (addPrompt (newSession H x ?pt) x ?pt)) \<subseteq> S"
    using x by (simp add: addPrompt_def newSession_def)
  show ?case
  proof (cases cur)
    case None
    have "\<forall>s\<in>set (groupLoop H gm xs (Some (addPrompt (newSession H x ?pt) x ?pt)) acc).
            set (prompts s) \<subseteq> S"
      using Cons.prems(1) new xs by (intro Cons.IH) simp_all
    then show ?thesis using None by (simp add: Let_def)
  next
    case (Some c)
    then have c: "set (prompts c) \<subseteq> S" using Cons.prems(2) by simp
    have a: "\<forall>s\<in>set (groupLoop H gm xs (Some (addPrompt (newSession H x ?pt) x ?pt))
                         (acc @ [finalizePrevious c])). set (prompts s) \<subseteq> S"
      using Cons.prems(1) new xs c by (intro Cons.IH) simp_all
    have "set (prompts (addPrompt c x ?pt)) \<subseteq> S"
      using c x by (simp add: addPrompt_def)
    then have b: "\<forall>s\<in>set (groupLoop H gm xs (Some (addPrompt c x ?pt)) acc).
                    set (prompts s) \<subseteq> S"
      using Cons.prems(1) xs by (intro Cons.IH) simp_all
    show ?thesis using Some a b by (simp add: Let_def)
  qed
qed

lemma groupSessions_members:
  "\<forall>s\<in>set (groupSessions H ps g). set (prompts s) \<subseteq> set ps"
proof (cases "ps = []")
  case True
  then show ?thesis by (simp add: groupSessions_def)
next
  case False
  have "\<forall>s\<in>set (groupLoop H (gapMillis g) (sort_key timestamp ps) None []).
          set (prompts s) \<subseteq> set ps"
    by (rule groupLoop_members) simp_all
  then show ?thesis using False by (simp add: groupSessions_def gapMillis_def)
qed

text \<open>
  For whole seconds the measured gap is the exact one, in milliseconds, and for a whole
  number of minutes the limit is the exact one.
\<close>

lemma promptMillis_whole:
  assumes "timestamp p = of_int n" and "\<bar>n\<bar> * 1000 < 2 ^ 52"
  shows "promptMillis p = of_int (n * 1000)"
proof -
  have "\<bar>n * 1000\<bar> < 2 ^ 53" using assms(2) by (simp add: abs_mult)
  from binary64_of_int [OF this] show ?thesis
    by (simp add: promptMillis_def assms(1))
qed

lemma measuredGap_whole:
  assumes "timestamp p \<in> \<int>" and "\<bar>timestamp p\<bar> * 1000 < 2 ^ 52"
    and "timestamp q \<in> \<int>" and "\<bar>timestamp q\<bar> * 1000 < 2 ^ 52"
  shows "measuredGap p q = (timestamp q - timestamp p) * 1000"
proof -
  from assms(1) obtain a where a: "timestamp p = of_int a" by (rule Ints_cases)
  from assms(3) obtain b where b: "timestamp q = of_int b" by (rule Ints_cases)
  have "\<bar>(of_int a :: rat)\<bar> * 1000 < 2 ^ 52" using assms(2) a by simp
  then have "(of_int (\<bar>a\<bar> * 1000) :: rat) < of_int (2 ^ 52)" by simp
  then have a52: "\<bar>a\<bar> * 1000 < 2 ^ 52" by (simp only: of_int_less_iff)
  have "\<bar>(of_int b :: rat)\<bar> * 1000 < 2 ^ 52" using assms(4) b by simp
  then have "(of_int (\<bar>b\<bar> * 1000) :: rat) < of_int (2 ^ 52)" by simp
  then have b52: "\<bar>b\<bar> * 1000 < 2 ^ 52" by (simp only: of_int_less_iff)
  have "\<bar>b * 1000 - a * 1000\<bar> < 2 ^ 53" using a52 b52 by simp
  from binary64_of_int [OF this] show ?thesis
    by (simp add: measuredGap_def promptMillis_whole [OF a a52] promptMillis_whole [OF b b52]
          a b algebra_simps)
qed

lemma gapMillis_whole:
  assumes "g \<in> \<int>" and "\<bar>g\<bar> * 60000 < 2 ^ 53"
  shows "gapMillis g = g * 60000"
proof -
  from assms(1) obtain m where m: "g = of_int m" by (rule Ints_cases)
  have "\<bar>(of_int m :: rat)\<bar> * 60000 < 2 ^ 53" using assms(2) m by simp
  then have "(of_int (\<bar>m\<bar> * 60000) :: rat) < of_int (2 ^ 53)" by simp
  then have m53: "\<bar>m\<bar> * 60000 < 2 ^ 53" by (simp only: of_int_less_iff)
  have "\<bar>m * 60\<bar> < 2 ^ 53" using m53 by (simp add: abs_mult)
  from binary64_of_int [OF this] have one: "binary64 (of_int m * 60) = of_int (m * 60)"
    by simp
  have eq: "(of_int (m * 60) * 1000 :: rat) = of_int (m * 60000)" by simp
  have "\<bar>m * 60000\<bar> < 2 ^ 53" using m53 by (simp add: abs_mult)
  from binary64_of_int [OF this] have two: "binary64 (of_int (m * 60) * 1000) = of_int (m * 60000)"
    by (simp only: eq)
  have "gapMillis g = binary64 (binary64 (of_int m * 60) * 1000)"
    by (simp only: gapMillis_def m)
  also have "\<dots> = of_int (m * 60000)" by (simp only: one two)
  also have "\<dots> = g * 60000" by (simp add: m)
  finally show ?thesis .
qed

text \<open>
  C3, amended: for entries and a gap whose products with 1000 and with 60000 stay below
  \<open>2^1022\<close> in magnitude, so that no product or difference of the code overflows,
  within each session returned by \<open>groupSessions\<close> two
  neighbouring entries are in time order and the gap between them as the code measures
  it, the rounded difference of the two timestamps each multiplied by 1000 and rounded,
  is at most the rounded \<open>gapMinutes * 60 * 1000\<close>; from the last entry of a session to
  the first entry of the next this measured gap is more than that limit; every session
  has an entry. When the timestamps are whole seconds and \<open>gapMinutes\<close> is a whole number,
  with products below \<open>2^52\<close> and \<open>2^53\<close>, the measured gap is the exact one and the gaps
  are as the claim states them: at most \<open>gapMinutes\<close> within a session and more than
  \<open>gapMinutes\<close> between two sessions. Entries at 0 s, 600 s and 3600 s with a gap of 30
  minutes give the two sessions \<open>[t0, t600]\<close> and \<open>[t3600]\<close>.
\<close>

theorem groupSessions_measured_gaps:
  assumes "\<forall>p\<in>set ps. \<bar>timestamp p\<bar> * 1000 < 2 ^ 1022" and "\<bar>g\<bar> * 60000 < 2 ^ 1022"
  shows "(\<forall>s\<in>set (groupSessions H ps g). \<forall>i. Suc i < length (prompts s) \<longrightarrow>
            timestamp (prompts s ! i) \<le> timestamp (prompts s ! Suc i) \<and>
            measuredGap (prompts s ! i) (prompts s ! Suc i) \<le> gapMillis g) \<and>
         (\<forall>j. Suc j < length (groupSessions H ps g) \<longrightarrow>
            gapMillis g < measuredGap (last (prompts (groupSessions H ps g ! j)))
                                      (hd (prompts (groupSessions H ps g ! Suc j)))) \<and>
         (\<forall>s\<in>set (groupSessions H ps g). prompts s \<noteq> []) \<and>
         ((\<forall>p\<in>set ps. timestamp p \<in> \<int> \<and> \<bar>timestamp p\<bar> * 1000 < 2 ^ 52) \<and>
          g \<in> \<int> \<and> \<bar>g\<bar> * 60000 < 2 ^ 53 \<longrightarrow>
            (\<forall>s\<in>set (groupSessions H ps g). \<forall>i. Suc i < length (prompts s) \<longrightarrow>
               timestamp (prompts s ! Suc i) - timestamp (prompts s ! i) \<le> g * 60) \<and>
            (\<forall>j. Suc j < length (groupSessions H ps g) \<longrightarrow>
               g * 60 < timestamp (hd (prompts (groupSessions H ps g ! Suc j))) -
                        timestamp (last (prompts (groupSessions H ps g ! j))))) \<and>
         map prompts (groupSessions H [entryAt 0, entryAt 600, entryAt 3600] 30) =
           [[entryAt 0, entryAt 600], [entryAt 3600]]"
proof -
  let ?ss = "groupSessions H ps g"
  note rec = groupSessions_gaps_rec [of H ps g]
  have inside: "timestamp (prompts s ! i) \<le> timestamp (prompts s ! Suc i) \<and>
                measuredGap (prompts s ! i) (prompts s ! Suc i) \<le> gapMillis g"
    if "s \<in> set ?ss" and "Suc i < length (prompts s)" for s i
    using rec that by (intro within_gap_nth) simp_all
  have across: "gapMillis g < measuredGap (last (prompts (?ss ! j))) (hd (prompts (?ss ! Suc j)))"
    if j: "Suc j < length ?ss" for j
  proof -
    have "gapMillis g < measuredGap (last (map prompts ?ss ! j)) (hd (map prompts ?ss ! Suc j))"
      using rec j by (intro between_gap_nth) simp_all
    then show ?thesis using j by simp
  qed
  have nonempty: "\<forall>s\<in>set ?ss. prompts s \<noteq> []"
    using rec by blast
  have whole: "(\<forall>s\<in>set ?ss. \<forall>i. Suc i < length (prompts s) \<longrightarrow>
               timestamp (prompts s ! Suc i) - timestamp (prompts s ! i) \<le> g * 60) \<and>
            (\<forall>j. Suc j < length ?ss \<longrightarrow>
               g * 60 < timestamp (hd (prompts (?ss ! Suc j))) -
                        timestamp (last (prompts (?ss ! j))))"
    if ts: "\<forall>p\<in>set ps. timestamp p \<in> \<int> \<and> \<bar>timestamp p\<bar> * 1000 < 2 ^ 52"
      and g: "g \<in> \<int>" "\<bar>g\<bar> * 60000 < 2 ^ 53"
  proof -
    have exact: "measuredGap p q = (timestamp q - timestamp p) * 1000"
      if "p \<in> set ps" and "q \<in> set ps" for p q
      using ts that by (intro measuredGap_whole) simp_all
    have limit: "gapMillis g = g * 60000" using g by (rule gapMillis_whole)
    have mem: "set (prompts s) \<subseteq> set ps" if "s \<in> set ?ss" for s
      using groupSessions_members that by blast
    have a: "timestamp (prompts s ! Suc i) - timestamp (prompts s ! i) \<le> g * 60"
      if s: "s \<in> set ?ss" and i: "Suc i < length (prompts s)" for s i
    proof -
      have p: "prompts s ! i \<in> set ps" using mem [OF s] i by (meson Suc_lessD nth_mem subsetD)
      have q: "prompts s ! Suc i \<in> set ps" using mem [OF s] i by (meson nth_mem subsetD)
      from inside [OF s i] have "measuredGap (prompts s ! i) (prompts s ! Suc i) \<le> gapMillis g"
        by simp
      then show ?thesis by (simp add: exact [OF p q] limit)
    qed
    have b: "g * 60 < timestamp (hd (prompts (?ss ! Suc j))) - timestamp (last (prompts (?ss ! j)))"
      if j: "Suc j < length ?ss" for j
    proof -
      have s0: "?ss ! j \<in> set ?ss" using j by (meson Suc_lessD nth_mem)
      have s1: "?ss ! Suc j \<in> set ?ss" using j by (meson nth_mem)
      have p: "last (prompts (?ss ! j)) \<in> set ps"
        using mem [OF s0] nonempty s0 by (meson last_in_set subsetD)
      have q: "hd (prompts (?ss ! Suc j)) \<in> set ps"
        using mem [OF s1] nonempty s1 by (meson hd_in_set subsetD)
      from across [OF j] show ?thesis by (simp add: exact [OF p q] limit)
    qed
    from a b show ?thesis by blast
  qed
  have scenario: "map prompts (groupSessions H [entryAt 0, entryAt 600, entryAt 3600] 30) =
           [[entryAt 0, entryAt 600], [entryAt 3600]]"
    by (simp add: groupSessions_def addPrompt_def newSession_def finalizePrevious_def
          finalizeLast_def entryAt_def binary64_zero binary64_numeral)
  show ?thesis
  proof (intro conjI)
    show "\<forall>s\<in>set ?ss. \<forall>i. Suc i < length (prompts s) \<longrightarrow>
            timestamp (prompts s ! i) \<le> timestamp (prompts s ! Suc i) \<and>
            measuredGap (prompts s ! i) (prompts s ! Suc i) \<le> gapMillis g"
      using inside by blast
    show "\<forall>j. Suc j < length ?ss \<longrightarrow>
            gapMillis g < measuredGap (last (prompts (?ss ! j))) (hd (prompts (?ss ! Suc j)))"
      using across by blast
    show "\<forall>s\<in>set ?ss. prompts s \<noteq> []" by (rule nonempty)
    show "(\<forall>p\<in>set ps. timestamp p \<in> \<int> \<and> \<bar>timestamp p\<bar> * 1000 < 2 ^ 52) \<and>
          g \<in> \<int> \<and> \<bar>g\<bar> * 60000 < 2 ^ 53 \<longrightarrow>
            (\<forall>s\<in>set ?ss. \<forall>i. Suc i < length (prompts s) \<longrightarrow>
               timestamp (prompts s ! Suc i) - timestamp (prompts s ! i) \<le> g * 60) \<and>
            (\<forall>j. Suc j < length ?ss \<longrightarrow>
               g * 60 < timestamp (hd (prompts (?ss ! Suc j))) -
                        timestamp (last (prompts (?ss ! j))))"
      using whole by blast
    show "map prompts (groupSessions H [entryAt 0, entryAt 600, entryAt 3600] 30) =
           [[entryAt 0, entryAt 600], [entryAt 3600]]"
      by (rule scenario)
  qed
qed

theorem groupSessions_measured_gaps_witness:
  "list_all (\<lambda>p. \<bar>timestamp p\<bar> * 1000 < 2 ^ 1022) [entryAt 3600, entryAt 0, entryAt 600] \<and>
   \<bar>30 :: rat\<bar> * 60000 < 2 ^ 1022 \<and>
   groupSessions exampleHost [entryAt 3600, entryAt 0, entryAt 600] 30 ! 0
     \<in> set (groupSessions exampleHost [entryAt 3600, entryAt 0, entryAt 600] 30) \<and>
   Suc 0 < length (prompts (groupSessions exampleHost [entryAt 3600, entryAt 0, entryAt 600] 30 ! 0)) \<and>
   Suc 0 < length (groupSessions exampleHost [entryAt 3600, entryAt 0, entryAt 600] 30) \<and>
   measuredGap
     (prompts (groupSessions exampleHost [entryAt 3600, entryAt 0, entryAt 600] 30 ! 0) ! 0)
     (prompts (groupSessions exampleHost [entryAt 3600, entryAt 0, entryAt 600] 30 ! 0) ! Suc 0)
     \<le> gapMillis 30 \<and>
   gapMillis 30 <
     measuredGap
       (last (prompts (groupSessions exampleHost [entryAt 3600, entryAt 0, entryAt 600] 30 ! 0)))
       (hd (prompts (groupSessions exampleHost [entryAt 3600, entryAt 0, entryAt 600] 30 ! Suc 0))) \<and>
   list_all (\<lambda>p. timestamp p \<in> \<int> \<and> \<bar>timestamp p\<bar> * 1000 < 2 ^ 52)
     [entryAt 3600, entryAt 0, entryAt 600] \<and>
   (30 :: rat) \<in> \<int> \<and> \<bar>30 :: rat\<bar> * 60000 < 2 ^ 53 \<and>
   timestamp (prompts (groupSessions exampleHost [entryAt 3600, entryAt 0, entryAt 600] 30 ! 0) ! Suc 0) -
   timestamp (prompts (groupSessions exampleHost [entryAt 3600, entryAt 0, entryAt 600] 30 ! 0) ! 0)
     \<le> 30 * 60 \<and>
   30 * 60 < timestamp (hd (prompts (groupSessions exampleHost [entryAt 3600, entryAt 0, entryAt 600] 30 ! Suc 0))) -
             timestamp (last (prompts (groupSessions exampleHost [entryAt 3600, entryAt 0, entryAt 600] 30 ! 0)))"
proof -
  let ?ps = "[entryAt 3600, entryAt 0, entryAt 600]"
  let ?ss = "groupSessions exampleHost ?ps 30"
  have range: "\<forall>p\<in>set ?ps. \<bar>timestamp p\<bar> * 1000 < 2 ^ 1022"
    by (simp add: entryAt_def)
  have range': "list_all (\<lambda>p. \<bar>timestamp p\<bar> * 1000 < 2 ^ 1022) ?ps"
    using range by (simp only: list_all_iff)
  have limit: "\<bar>30 :: rat\<bar> * 60000 < 2 ^ 1022" by simp
  have len: "length ?ss = 2"
    by (simp add: session_builder_defs)
  have len0: "length (prompts (?ss ! 0)) = 2"
    by (simp add: session_builder_defs)
  have mem: "?ss ! 0 \<in> set ?ss" using len by (intro nth_mem) simp
  have i: "Suc 0 < length (prompts (?ss ! 0))" using len0 by simp
  have j: "Suc 0 < length ?ss" using len by simp
  have whole: "\<forall>p\<in>set ?ps. timestamp p \<in> \<int> \<and> \<bar>timestamp p\<bar> * 1000 < 2 ^ 52"
    by (simp add: entryAt_def)
  have whole': "list_all (\<lambda>p. timestamp p \<in> \<int> \<and> \<bar>timestamp p\<bar> * 1000 < 2 ^ 52) ?ps"
    using whole by (simp only: list_all_iff)
  have g: "(30 :: rat) \<in> \<int>" "\<bar>30 :: rat\<bar> * 60000 < 2 ^ 53" by simp_all
  have pre: "(\<forall>p\<in>set ?ps. timestamp p \<in> \<int> \<and> \<bar>timestamp p\<bar> * 1000 < 2 ^ 52) \<and>
             (30 :: rat) \<in> \<int> \<and> \<bar>30 :: rat\<bar> * 60000 < 2 ^ 53"
    by (intro conjI whole g)
  note inst = groupSessions_measured_gaps [OF range limit, of exampleHost]
  note inside = inst [THEN conjunct1, THEN bspec, OF mem, THEN spec, THEN mp, OF i, THEN conjunct2]
  note across = inst [THEN conjunct2, THEN conjunct1, THEN spec, THEN mp, OF j]
  note exact = inst [THEN conjunct2, THEN conjunct2, THEN conjunct2, THEN conjunct1, THEN mp, OF pre]
  note exact_in = exact [THEN conjunct1, THEN bspec, OF mem, THEN spec, THEN mp, OF i]
  note exact_out = exact [THEN conjunct2, THEN spec, THEN mp, OF j]
  show ?thesis
    by (intro conjI range' limit mem i j inside across whole' g exact_in exact_out)
qed

text \<open>
  C4: the identifier of every session \<open>groupSessions\<close> returns is
  \<open>generateSessionId\<close> of the session's first entry, and \<open>generateSessionId\<close> gives the
  same identifier to two entries with the same timestamp, the same \<open>cwd\<close> (an absent one
  counting as empty) and the same session key: the first sixteen digits of the digest of
  these three. No other input enters, so equal entry lists give equal identifiers.
\<close>

theorem groupSessions_session_id:
  "(\<forall>s\<in>set (groupSessions H ps g).
       prompts s \<noteq> [] \<and> s_session_id s = generateSessionId H (hd (prompts s))) \<and>
   (\<forall>p q. timestamp p = timestamp q \<and> or_empty (cwd p) = or_empty (cwd q) \<and>
          session_id p = session_id q \<longrightarrow> generateSessionId H p = generateSessionId H q) \<and>
   (\<forall>qs. qs = ps \<longrightarrow>
          map s_session_id (groupSessions H qs g) = map s_session_id (groupSessions H ps g))"
  using groupSessions_ids [of H ps g]
  by (simp add: session_id_ok_def generateSessionId_def)

theorem groupSessions_session_id_witness:
  "groupSessions exampleHost [entryAt 0, entryAt 600, entryAt 3600] 30 ! 1
     \<in> set (groupSessions exampleHost [entryAt 0, entryAt 600, entryAt 3600] 30) \<and>
   s_session_id (groupSessions exampleHost [entryAt 0, entryAt 600, entryAt 3600] 30 ! 1) =
     generateSessionId exampleHost
       (hd (prompts (groupSessions exampleHost [entryAt 0, entryAt 600, entryAt 3600] 30 ! 1))) \<and>
   hd (prompts (groupSessions exampleHost [entryAt 0, entryAt 600, entryAt 3600] 30 ! 1)) = entryAt 3600 \<and>
   (timestamp (entryAt 3600) = timestamp ((entryAt 3600)\<lparr>prompt_length := 7\<rparr>) \<and>
    or_empty (cwd (entryAt 3600)) = or_empty (cwd ((entryAt 3600)\<lparr>prompt_length := 7\<rparr>)) \<and>
    session_id (entryAt 3600) = session_id ((entryAt 3600)\<lparr>prompt_length := 7\<rparr>)) \<and>
   generateSessionId exampleHost (entryAt 3600) =
     generateSessionId exampleHost ((entryAt 3600)\<lparr>prompt_length := 7\<rparr>)"
proof -
  let ?ss = "groupSessions exampleHost [entryAt 0, entryAt 600, entryAt 3600] 30"
  have len: "length ?ss = 2"
    by (simp add: session_builder_defs)
  have first: "hd (prompts (?ss ! 1)) = entryAt 3600"
    by (simp add: session_builder_defs)
  have mem: "?ss ! 1 \<in> set ?ss" using len by (intro nth_mem) simp
  have same: "timestamp (entryAt 3600) = timestamp ((entryAt 3600)\<lparr>prompt_length := 7\<rparr>)
      \<and> or_empty (cwd (entryAt 3600)) = or_empty (cwd ((entryAt 3600)\<lparr>prompt_length := 7\<rparr>))
      \<and> session_id (entryAt 3600) = session_id ((entryAt 3600)\<lparr>prompt_length := 7\<rparr>)"
    by simp
  note inst = groupSessions_session_id [of exampleHost "[entryAt 0, entryAt 600, entryAt 3600]" 30]
  note derived = inst [THEN conjunct1, THEN bspec, OF mem, THEN conjunct2]
  note stable = inst [THEN conjunct2, THEN conjunct1, THEN spec, THEN spec, THEN mp, OF same]
  show ?thesis
    by (intro conjI mem derived first stable same [THEN conjunct1]
          same [THEN conjunct2, THEN conjunct1] same [THEN conjunct2, THEN conjunct2])
qed

section \<open>Issue extractor: the scenarios of the built-in patterns\<close>

text \<open>
  C7: for the branch name \<open>feature/PROJ-123-fix\<close> and no custom patterns, branch
  extraction gives \<open>[{issueKey: "PROJ-123", source: "branch", confidence: 1.0}]\<close>, the key
  pattern being one to three letters, a hyphen and digits, matched without regard to case
  and given in upper case. The code gives the empty list: \<open>PROJ\<close> has four letters, and
  between word boundaries \<open>[A-Z]{1,3}\<close> matches at most three. A key of three letters in
  the same place is found, in either case, and is given in upper case.
\<close>

theorem extractFromBranch_four_letter_key:
  "extractFromBranch ''feature/PROJ-123-fix'' [] = [] \<and>
   extractFromBranch ''feature/PRJ-123-fix'' [] =
     [\<lparr>issueKey = ''PRJ-123'', source = ''branch'', confidence = 1\<rparr>] \<and>
   extractFromBranch ''feature/prj-123-fix'' [] =
     [\<lparr>issueKey = ''PRJ-123'', source = ''branch'', confidence = 1\<rparr>]"
  by code_simp

text \<open>
  C8: for the path \<open>/home/u/TASK-7/app\<close> and no custom patterns, directory extraction
  gives \<open>[{issueKey: "TASK-7", source: "directory", confidence: 0.5}]\<close>, and for
  \<open>/home/u/TASK-7x/app\<close> it gives nothing. The code gives the empty list for both:
  \<open>TASK\<close> has four letters, and between the two slashes \<open>[A-Z]{1,3}\<close> matches at most
  three. A key of three letters that fills its segment is found, and is not found when
  the segment goes on after it.
\<close>

theorem extractFromPath_four_letter_key:
  "extractFromPath ''/home/u/TASK-7/app'' [] = [] \<and>
   extractFromPath ''/home/u/TASK-7x/app'' [] = [] \<and>
   extractFromPath ''/home/u/TSK-7/app'' [] =
     [\<lparr>issueKey = ''TSK-7'', source = ''directory'', confidence = 1 / 2\<rparr>] \<and>
   extractFromPath ''/home/u/TSK-7x/app'' [] = []"
  by code_simp

section \<open>Log parser: which lines are accepted\<close>

text \<open>
  C9, as stated: a line that is valid JSON is rejected if and only if \<open>timestamp\<close> or
  the session key is absent. This fails for the line
  \<open>{"timestamp": 0, "session_id": "a"}\<close>: both fields are present, and the line is
  rejected, because the zero is falsy.
\<close>

theorem parseEntry_zero_timestamp_rejected:
  "property (JObject [(''timestamp'', JNumber 0), (''session_id'', JString ''a'')]) ''timestamp''
     = Some (JNumber 0) \<and>
   property (JObject [(''timestamp'', JNumber 0), (''session_id'', JString ''a'')]) ''session_id''
     = Some (JString ''a'') \<and>
   parseEntry (JObject [(''timestamp'', JNumber 0), (''session_id'', JString ''a'')])
     = Inl MissingRequiredFields"
  by (simp add: parseEntry_def property_def isTruthy_def)

lemma parseLines_collect:
  "parseLines P ls i acc =
     (fst acc @ concat (map (\<lambda>l. case parseLine P l of Inr e \<Rightarrow> [e] | Inl _ \<Rightarrow> []) ls),
      snd acc @ concat (map (\<lambda>(k, l). case parseLine P l of Inl e \<Rightarrow> [(k + 1, e)] | Inr _ \<Rightarrow> [])
                         (zip [i ..< i + length ls] ls)))"
proof (induction ls arbitrary: i acc)
  case Nil
  then show ?case by simp
next
  case (Cons l ls)
  have "[i ..< i + length (l # ls)] = i # [Suc i ..< i + length (l # ls)]"
    by (rule upt_conv_Cons) simp
  then have upt: "[i ..< i + length (l # ls)] = i # [Suc i ..< Suc i + length ls]"
    by simp
  show ?case
    unfolding upt by (cases "parseLine P l") (simp_all add: Cons.IH)
qed

text \<open>
  C9, amended: the value of a line that is valid JSON is accepted as an entry if and only
  if it is not \<open>null\<close> and its \<open>timestamp\<close> and \<open>session_id\<close> are both truthy (present,
  and none of \<open>null\<close>, \<open>false\<close>, \<open>0\<close> and the empty string); otherwise the line is
  recorded as an error of that line, so a line that lacks one of the two fields is always
  rejected. An accepted entry carries the \<open>timestamp\<close> and the \<open>session_id\<close> of the line
  unchanged. A rejected line does not stop the loop: the entries are the accepted lines in
  order, and the errors are the rejected lines in order, each with its line number.
\<close>

theorem parseLogFile_accepts_truthy:
  "((\<exists>e. parseEntry v = Inr e) =
      (v \<noteq> JNull \<and> isTruthy (property v ''timestamp'') \<and> isTruthy (property v ''session_id''))) \<and>
   (\<forall>e. parseEntry v = Inr e \<longrightarrow>
      property v ''timestamp'' = Some (le_timestamp e) \<and>
      property v ''session_id'' = Some (le_session_id e)) \<and>
   (property v ''timestamp'' = None \<or> property v ''session_id'' = None \<longrightarrow>
      (\<exists>err. parseEntry v = Inl err)) \<and>
   (JSON_parse line = Some v \<longrightarrow> parseLine JSON_parse line = parseEntry v) \<and>
   parseLines JSON_parse ls 0 ([], []) =
     (concat (map (\<lambda>l. case parseLine JSON_parse l of Inr e \<Rightarrow> [e] | Inl _ \<Rightarrow> []) ls),
      concat (map (\<lambda>(k, l). case parseLine JSON_parse l of Inl e \<Rightarrow> [(k + 1, e)] | Inr _ \<Rightarrow> [])
                (zip [0 ..< length ls] ls)))"
proof (intro conjI)
  show "(\<exists>e. parseEntry v = Inr e) =
      (v \<noteq> JNull \<and> isTruthy (property v ''timestamp'') \<and> isTruthy (property v ''session_id''))"
    by (auto simp: parseEntry_def)
  show "\<forall>e. parseEntry v = Inr e \<longrightarrow>
      property v ''timestamp'' = Some (le_timestamp e) \<and>
      property v ''session_id'' = Some (le_session_id e)"
    by (auto simp: parseEntry_def isTruthy_def split: if_splits option.splits)
  show "property v ''timestamp'' = None \<or> property v ''session_id'' = None \<longrightarrow>
      (\<exists>err. parseEntry v = Inl err)"
    by (auto simp: parseEntry_def isTruthy_def)
  show "JSON_parse line = Some v \<longrightarrow> parseLine JSON_parse line = parseEntry v"
    by (simp add: parseLine_def)
  show "parseLines JSON_parse ls 0 ([], []) =
     (concat (map (\<lambda>l. case parseLine JSON_parse l of Inr e \<Rightarrow> [e] | Inl _ \<Rightarrow> []) ls),
      concat (map (\<lambda>(k, l). case parseLine JSON_parse l of Inl e \<Rightarrow> [(k + 1, e)] | Inr _ \<Rightarrow> [])
                (zip [0 ..< length ls] ls)))"
    using parseLines_collect [of JSON_parse ls 0 "([], [])"] by simp
qed

theorem parseLogFile_accepts_truthy_witness:
  "parseEntry exampleLine =
     Inr \<lparr> le_timestamp = JNumber 1700000000, le_session_id = JString ''a'',
           le_prompt_preview = JNull, le_prompt_length = JNumber 0, le_cwd = JNull,
           le_git_branch = JNull, le_git_remote = JNull \<rparr> \<and>
   property exampleLine ''timestamp'' = Some (JNumber 1700000000) \<and>
   property exampleLine ''session_id'' = Some (JString ''a'') \<and>
   (property (JObject [(''session_id'', JString ''a'')]) ''timestamp'' = None \<or>
    property (JObject [(''session_id'', JString ''a'')]) ''session_id'' = None) \<and>
   (\<exists>err. parseEntry (JObject [(''session_id'', JString ''a'')]) = Inl err) \<and>
   exampleParse ''ok'' = Some exampleLine \<and>
   parseLine exampleParse ''ok'' = parseEntry exampleLine \<and>
   parseLines exampleParse [''zero'', ''ok'', ''null'', ''{'', ''ok''] 0 ([], []) =
     ([\<lparr> le_timestamp = JNumber 1700000000, le_session_id = JString ''a'',
          le_prompt_preview = JNull, le_prompt_length = JNumber 0, le_cwd = JNull,
          le_git_branch = JNull, le_git_remote = JNull \<rparr>,
       \<lparr> le_timestamp = JNumber 1700000000, le_session_id = JString ''a'',
          le_prompt_preview = JNull, le_prompt_length = JNumber 0, le_cwd = JNull,
          le_git_branch = JNull, le_git_remote = JNull \<rparr>],
      [(1, MissingRequiredFields), (3, TypeError), (4, SyntaxError)])"
proof -
  let ?e = "\<lparr> le_timestamp = JNumber 1700000000, le_session_id = JString ''a'',
           le_prompt_preview = JNull, le_prompt_length = JNumber 0, le_cwd = JNull,
           le_git_branch = JNull, le_git_remote = JNull \<rparr>"
  have accepted: "parseEntry exampleLine = Inr ?e"
    by (simp add: exampleLine_def parseEntry_def property_def isTruthy_def orElse_def)
  have absent: "property (JObject [(''session_id'', JString ''a'')]) ''timestamp'' = None \<or>
                property (JObject [(''session_id'', JString ''a'')]) ''session_id'' = None"
    by (simp add: property_def)
  have parsed: "exampleParse ''ok'' = Some exampleLine"
    by (simp add: exampleParse_def)
  note inst = parseLogFile_accepts_truthy [of exampleLine exampleParse "''ok''"
      "[''zero'', ''ok'', ''null'', ''{'', ''ok'']"]
  note kept = inst [THEN conjunct2, THEN conjunct1, THEN spec, THEN mp, OF accepted]
  have kept1: "property exampleLine ''timestamp'' = Some (JNumber 1700000000)"
    using kept by simp
  have kept2: "property exampleLine ''session_id'' = Some (JString ''a'')"
    using kept by simp
  note inst2 = parseLogFile_accepts_truthy [of "JObject [(''session_id'', JString ''a'')]"
      exampleParse "''ok''" "[]"]
  note rejected = inst2 [THEN conjunct2, THEN conjunct2, THEN conjunct1, THEN mp, OF absent]
  note same = inst [THEN conjunct2, THEN conjunct2, THEN conjunct2, THEN conjunct1, THEN mp, OF parsed]
  have lines: "parseLines exampleParse [''zero'', ''ok'', ''null'', ''{'', ''ok''] 0 ([], []) =
     ([?e, ?e], [(1, MissingRequiredFields), (3, TypeError), (4, SyntaxError)])"
    unfolding inst [THEN conjunct2, THEN conjunct2, THEN conjunct2, THEN conjunct2]
    by (simp add: parseLine_def exampleParse_def parseEntry_def property_def isTruthy_def
          orElse_def exampleLine_def upt_rec)
  show ?thesis
    by (intro conjI accepted kept1 kept2 absent rejected parsed same lines)
qed

section \<open>Issue extractor: one record for each key\<close>

text \<open>
  After any list of occurrences has gone through \<open>updateIssueMap\<close>, the map holds for
  each key what \<open>resolved\<close> says: nothing when the key did not occur, and otherwise the
  record of its highest confidence with the labels of all occurrences of that confidence.
\<close>

lemma commaJoin_snoc: "xs \<noteq> [] \<Longrightarrow> commaJoin (xs @ [s]) = commaJoin xs @ '','' @ s"
  by (induction xs rule: commaJoin.induct) auto

lemma commaJoin_has_comma: "2 \<le> length xs \<Longrightarrow> CHR '','' \<in> set (commaJoin xs)"
  by (cases xs rule: commaJoin.cases) auto

lemma map_of_updateIssueMap:
  "map_of (updateIssueMap m x) =
     (case map_of m (issueKey x) of
        None \<Rightarrow> (map_of m)(issueKey x \<mapsto> x)
      | Some e \<Rightarrow>
          if confidence e < confidence x then (map_of m)(issueKey x \<mapsto> x)
          else if confidence x = confidence e
          then (map_of m)(issueKey x \<mapsto> e\<lparr>source := source e @ '','' @ source x\<rparr>)
          else map_of m)"
  by (simp add: updateIssueMap_def update_conv' split: option.splits)

lemma map_of_updateIssueMap_other:
  "issueKey x \<noteq> k \<Longrightarrow> map_of (updateIssueMap m x) k = map_of m k"
  by (simp add: map_of_updateIssueMap split: option.splits)

lemma distinct_updateIssueMap:
  "distinct (map fst m) \<Longrightarrow> distinct (map fst (updateIssueMap m x))"
  by (simp add: updateIssueMap_def distinct_update split: option.splits)

lemma distinct_foldl_updateIssueMap:
  "distinct (map fst m) \<Longrightarrow> distinct (map fst (foldl updateIssueMap m xs))"
  by (induction xs arbitrary: m) (simp_all add: distinct_updateIssueMap)

lemma resolved_step_same:
  assumes "resolved xs (issueKey x) (map_of m (issueKey x))"
  shows "resolved (xs @ [x]) (issueKey x) (map_of (updateIssueMap m x) (issueKey x))"
proof (cases "map_of m (issueKey x)")
  case None
  then show ?thesis using assms
    by (auto simp: resolved_def map_of_updateIssueMap filter_empty_conv)
next
  case (Some e)
  let ?k = "issueKey x"
  from assms Some have e: "issueKey e = ?k"
    and le: "\<forall>f\<in>set xs. issueKey f = ?k \<longrightarrow> confidence f \<le> confidence e"
    and ne: "filter (\<lambda>f. issueKey f = ?k \<and> confidence f = confidence e) xs \<noteq> []"
    and src: "source e = commaJoin (map source (filter (\<lambda>f. issueKey f = ?k \<and> confidence f = confidence e) xs))"
    by (simp_all add: resolved_def)
  consider (gt) "confidence e < confidence x" | (eq) "confidence x = confidence e"
    | (lt) "confidence x < confidence e" by linarith
  then show ?thesis
  proof cases
    case gt
    have "filter (\<lambda>f. issueKey f = ?k \<and> confidence f = confidence x) xs = []"
      using le gt by (auto simp: filter_empty_conv)
    then show ?thesis using Some gt le
      by (auto simp: resolved_def map_of_updateIssueMap)
  next
    case eq
    then show ?thesis using Some e le ne src
      by (simp add: resolved_def map_of_updateIssueMap commaJoin_snoc)
  next
    case lt
    then show ?thesis using Some e le ne src
      by (auto simp: resolved_def map_of_updateIssueMap)
  qed
qed

lemma resolved_step_other:
  assumes "resolved xs k (map_of m k)" and "issueKey x \<noteq> k"
  shows "resolved (xs @ [x]) k (map_of (updateIssueMap m x) k)"
  using assms by (auto simp: resolved_def map_of_updateIssueMap_other split: option.splits)

lemma foldl_updateIssueMap_resolved:
  "resolved xs k (map_of (foldl updateIssueMap [] xs) k)"
proof (induction xs arbitrary: k rule: rev_induct)
  case Nil
  then show ?case by (simp add: resolved_def)
next
  case (snoc x xs)
  show ?case
  proof (cases "issueKey x = k")
    case True
    then show ?thesis using resolved_step_same [OF snoc.IH [of "issueKey x"]] by simp
  next
    case False
    then show ?thesis using resolved_step_other [OF snoc.IH [of k]] by simp
  qed
qed

lemma foldl_foldl_concat:
  "foldl (\<lambda>m c. foldl f m (g c)) a cs = foldl f a (concat (map g cs))"
  by (induction cs arbitrary: a) simp_all

lemma extractFromSession_foundIssues:
  "extractFromSession sess commits patterns =
     map snd (foldl updateIssueMap [] (foundIssues sess commits patterns))"
proof -
  let ?B = "case prompts sess of
              [] \<Rightarrow> []
            | firstPrompt # _ \<Rightarrow>
                if truthy (git_branch firstPrompt)
                then extractFromBranch (or_empty (git_branch firstPrompt)) patterns else []"
  let ?C = "\<lambda>c. extractFromCommitMessage (message c) patterns"
  let ?P = "\<lambda>p. (if truthy (prompt_preview p)
                   then extractFromPrompt (or_empty (prompt_preview p)) patterns else [])
                @ (if truthy (cwd p) then extractFromPath (or_empty (cwd p)) patterns else [])"
  have branch: "(case prompts sess of
                   [] \<Rightarrow> []
                 | firstPrompt # _ \<Rightarrow>
                     if truthy (git_branch firstPrompt)
                     then foldl updateIssueMap []
                            (extractFromBranch (or_empty (git_branch firstPrompt)) patterns)
                     else []) = foldl updateIssueMap [] ?B"
    by (simp split: list.splits)
  have step: "(\<lambda>m p. if truthy (cwd p)
                     then foldl updateIssueMap
                            (if truthy (prompt_preview p)
                             then foldl updateIssueMap m
                                    (extractFromPrompt (or_empty (prompt_preview p)) patterns)
                             else m)
                            (extractFromPath (or_empty (cwd p)) patterns)
                     else if truthy (prompt_preview p)
                          then foldl updateIssueMap m
                                 (extractFromPrompt (or_empty (prompt_preview p)) patterns)
                          else m)
     = (\<lambda>m p. foldl updateIssueMap m (?P p))"
    by (intro ext) simp
  have "extractFromSession sess commits patterns =
          map snd (foldl (\<lambda>m p. foldl updateIssueMap m (?P p))
                     (foldl (\<lambda>m c. foldl updateIssueMap m (?C c))
                        (foldl updateIssueMap [] ?B) commits)
                     (prompts sess))"
    unfolding extractFromSession_def Let_def branch by (simp only: step)
  also have "\<dots> = map snd (foldl updateIssueMap []
                        (?B @ concat (map ?C commits) @ concat (map ?P (prompts sess))))"
    unfolding foldl_foldl_concat by simp
  finally show ?thesis
    unfolding foundIssues_def .
qed

lemma labelled_pushIfNew:
  "labelled src conf res \<Longrightarrow> labelled src conf (pushIfNew src conf res key)"
  by (simp add: labelled_def pushIfNew_def)

lemma labelled_foldl_pushIfNew:
  "labelled src conf res \<Longrightarrow>
   labelled src conf (foldl (\<lambda>res' m. pushIfNew src conf res' (h m)) res ms)"
  by (induction ms arbitrary: res) (simp_all add: labelled_pushIfNew)

lemma labelled_tryCustomPatterns:
  "labelled src conf res \<Longrightarrow> labelled src conf (tryCustomPatterns src conf subject patterns res)"
  unfolding tryCustomPatterns_def
  by (induction patterns arbitrary: res) (simp_all add: labelled_foldl_pushIfNew)

lemma labelled_nil: "labelled src conf []"
  by (simp add: labelled_def)

lemma labelled_extractFromBranch: "labelled ''branch'' 1 (extractFromBranch b patterns)"
proof (cases "b = []")
  case True
  then show ?thesis by (simp add: extractFromBranch_def labelled_nil)
next
  case False
  have "labelled ''branch'' 1
          (case regexMatch branchPattern b of
             None \<Rightarrow> []
           | Some m \<Rightarrow> [\<lparr>issueKey = toUpperCase m, source = ''branch'', confidence = 1\<rparr>])"
    by (cases "regexMatch branchPattern b") (simp_all add: labelled_def)
  then show ?thesis
    using False by (simp add: extractFromBranch_def Let_def labelled_tryCustomPatterns)
qed

lemma labelled_builtin_patterns:
  "labelled src conf res \<Longrightarrow>
   labelled src conf
     (foldl (\<lambda>res pattern.
               foldl (\<lambda>res' m. pushIfNew src conf res' (toUpperCase m)) res (matchAll pattern msg))
            res ps)"
  by (induction ps arbitrary: res) (simp_all add: labelled_foldl_pushIfNew)

lemma labelled_extractFromCommitMessage:
  "labelled ''commit'' 1 (extractFromCommitMessage msg patterns)"
proof (cases "msg = []")
  case True
  then show ?thesis by (simp add: extractFromCommitMessage_def labelled_nil)
next
  case False
  then show ?thesis
    by (simp add: extractFromCommitMessage_def Let_def labelled_tryCustomPatterns
          labelled_builtin_patterns labelled_nil)
qed

lemma labelled_extractFromPrompt: "labelled ''prompt'' (7 / 10) (extractFromPrompt t patterns)"
proof (cases "t = []")
  case True
  then show ?thesis by (simp add: extractFromPrompt_def labelled_nil)
next
  case False
  then show ?thesis
    by (simp add: extractFromPrompt_def Let_def labelled_tryCustomPatterns
          labelled_foldl_pushIfNew labelled_nil)
qed

lemma labelled_extractFromPath: "labelled ''directory'' (1 / 2) (extractFromPath t patterns)"
proof (cases "t = []")
  case True
  then show ?thesis by (simp add: extractFromPath_def labelled_nil)
next
  case False
  then show ?thesis
    by (simp add: extractFromPath_def Let_def labelled_tryCustomPatterns
          labelled_foldl_pushIfNew labelled_nil)
qed

lemma foundIssues_labels:
  "\<forall>f\<in>set (foundIssues sess commits patterns).
     (source f, confidence f) \<in>
       {(''branch'', 1), (''commit'', 1), (''prompt'', 7 / 10), (''directory'', 1 / 2)}"
  using labelled_extractFromBranch labelled_extractFromCommitMessage
    labelled_extractFromPrompt labelled_extractFromPath
  unfolding foundIssues_def labelled_def
  by (auto split: list.splits if_splits)

lemma extractFromSession_resolved:
  assumes "r \<in> set (extractFromSession sess commits patterns)"
  shows "resolved (foundIssues sess commits patterns) (issueKey r) (Some r)"
proof -
  let ?F = "foundIssues sess commits patterns"
  let ?m = "foldl updateIssueMap [] ?F"
  have d: "distinct (map fst ?m)" by (rule distinct_foldl_updateIssueMap) simp
  from assms obtain k where kr: "(k, r) \<in> set ?m"
    by (auto simp: extractFromSession_foundIssues)
  with d have look: "map_of ?m k = Some r" by simp
  with foldl_updateIssueMap_resolved [of ?F k] have res: "resolved ?F k (Some r)" by simp
  then have "issueKey r = k" by (simp add: resolved_def)
  with res show ?thesis by simp
qed

lemma extractFromSession_keys:
  "map issueKey (extractFromSession sess commits patterns) =
     map fst (foldl updateIssueMap [] (foundIssues sess commits patterns))"
proof -
  let ?F = "foundIssues sess commits patterns"
  let ?m = "foldl updateIssueMap [] ?F"
  have d: "distinct (map fst ?m)" by (rule distinct_foldl_updateIssueMap) simp
  have "issueKey (snd p) = fst p" if "p \<in> set ?m" for p
  proof -
    from that d have "map_of ?m (fst p) = Some (snd p)" by simp
    with foldl_updateIssueMap_resolved [of ?F "fst p"] show ?thesis
      by (simp add: resolved_def)
  qed
  then show ?thesis by (simp add: extractFromSession_foundIssues)
qed

lemma extractFromSession_key_set:
  "issueKey ` set (extractFromSession sess commits patterns) =
     issueKey ` set (foundIssues sess commits patterns)"
proof -
  let ?F = "foundIssues sess commits patterns"
  let ?m = "foldl updateIssueMap [] ?F"
  have "k \<in> fst ` set ?m \<longleftrightarrow> k \<in> issueKey ` set ?F" for k
  proof -
    have "k \<in> fst ` set ?m \<longleftrightarrow> map_of ?m k \<noteq> None"
      by (simp add: map_of_eq_None_iff)
    also have "\<dots> \<longleftrightarrow> filter (\<lambda>f. issueKey f = k) ?F \<noteq> []"
      using foldl_updateIssueMap_resolved [of ?F k]
      by (auto simp: resolved_def filter_empty_conv split: option.splits)
    also have "\<dots> \<longleftrightarrow> k \<in> issueKey ` set ?F"
      by (auto simp: filter_empty_conv)
    finally show ?thesis .
  qed
  then have "fst ` set ?m = issueKey ` set ?F" by blast
  moreover have "issueKey ` set (extractFromSession sess commits patterns) = fst ` set ?m"
    using extractFromSession_keys [of sess commits patterns]
    by (metis list.set_map)
  ultimately show ?thesis by simp
qed

text \<open>
  C5: \<open>extractFromSession\<close> returns exactly one record for each issue key found by any
  source. The confidence of the record is the highest confidence with which the key was
  found, so an occurrence of strictly higher confidence wins (every occurrence from a
  branch or commit has confidence 1, from a prompt 7/10, from a directory 1/2). The
  \<open>source\<close> of the record is the labels of the occurrences with that highest confidence,
  in the order found and joined by commas: one label when a single occurrence wins, both
  labels when two sources tie. The confidence is the tied value itself.
\<close>

theorem extractFromSession_conflict_policy:
  "distinct (map issueKey (extractFromSession sess commits patterns)) \<and>
   issueKey ` set (extractFromSession sess commits patterns) =
     issueKey ` set (foundIssues sess commits patterns) \<and>
   (\<forall>f\<in>set (foundIssues sess commits patterns).
      (source f, confidence f) \<in>
        {(''branch'', 1), (''commit'', 1), (''prompt'', 7 / 10), (''directory'', 1 / 2)}) \<and>
   (\<forall>r\<in>set (extractFromSession sess commits patterns).
      (\<forall>f\<in>set (foundIssues sess commits patterns).
         issueKey f = issueKey r \<longrightarrow> confidence f \<le> confidence r) \<and>
      filter (\<lambda>f. issueKey f = issueKey r \<and> confidence f = confidence r)
        (foundIssues sess commits patterns) \<noteq> [] \<and>
      source r =
        commaJoin (map source
          (filter (\<lambda>f. issueKey f = issueKey r \<and> confidence f = confidence r)
             (foundIssues sess commits patterns))))"
proof (intro conjI)
  show "distinct (map issueKey (extractFromSession sess commits patterns))"
    unfolding extractFromSession_keys by (rule distinct_foldl_updateIssueMap) simp
  show "issueKey ` set (extractFromSession sess commits patterns) =
     issueKey ` set (foundIssues sess commits patterns)"
    by (rule extractFromSession_key_set)
  show "\<forall>f\<in>set (foundIssues sess commits patterns).
      (source f, confidence f) \<in>
        {(''branch'', 1), (''commit'', 1), (''prompt'', 7 / 10), (''directory'', 1 / 2)}"
    by (rule foundIssues_labels)
  show "\<forall>r\<in>set (extractFromSession sess commits patterns).
      (\<forall>f\<in>set (foundIssues sess commits patterns).
         issueKey f = issueKey r \<longrightarrow> confidence f \<le> confidence r) \<and>
      filter (\<lambda>f. issueKey f = issueKey r \<and> confidence f = confidence r)
        (foundIssues sess commits patterns) \<noteq> [] \<and>
      source r =
        commaJoin (map source
          (filter (\<lambda>f. issueKey f = issueKey r \<and> confidence f = confidence r)
             (foundIssues sess commits patterns)))"
  proof
    fix r assume r: "r \<in> set (extractFromSession sess commits patterns)"
    from extractFromSession_resolved [OF r]
    show "(\<forall>f\<in>set (foundIssues sess commits patterns).
         issueKey f = issueKey r \<longrightarrow> confidence f \<le> confidence r) \<and>
      filter (\<lambda>f. issueKey f = issueKey r \<and> confidence f = confidence r)
        (foundIssues sess commits patterns) \<noteq> [] \<and>
      source r =
        commaJoin (map source
          (filter (\<lambda>f. issueKey f = issueKey r \<and> confidence f = confidence r)
             (foundIssues sess commits patterns)))"
      by (simp add: resolved_def)
  qed
qed

theorem extractFromSession_conflict_policy_witness:
  "extractFromSession exampleSession [exampleCommit] [] =
     [\<lparr>issueKey = ''AB-1'', source = ''branch,commit'', confidence = 1\<rparr>] \<and>
   foundIssues exampleSession [exampleCommit] [] =
     [\<lparr>issueKey = ''AB-1'', source = ''branch'', confidence = 1\<rparr>,
      \<lparr>issueKey = ''AB-1'', source = ''commit'', confidence = 1\<rparr>,
      \<lparr>issueKey = ''AB-1'', source = ''prompt'', confidence = 7 / 10\<rparr>] \<and>
   source \<lparr>issueKey = ''AB-1'', source = ''branch,commit'', confidence = 1\<rparr> =
     commaJoin (map source
       (filter (\<lambda>f. issueKey f = ''AB-1'' \<and> confidence f = 1)
          (foundIssues exampleSession [exampleCommit] []))) \<and>
   confidence \<lparr>issueKey = ''AB-1'', source = ''prompt'', confidence = 7 / 10\<rparr>
     \<le> confidence \<lparr>issueKey = ''AB-1'', source = ''branch,commit'', confidence = 1\<rparr> \<and>
   extractFromSession exampleSession [] [] =
     [\<lparr>issueKey = ''AB-1'', source = ''branch'', confidence = 1\<rparr>] \<and>
   foundIssues exampleSession [] [] =
     [\<lparr>issueKey = ''AB-1'', source = ''branch'', confidence = 1\<rparr>,
      \<lparr>issueKey = ''AB-1'', source = ''prompt'', confidence = 7 / 10\<rparr>] \<and>
   source \<lparr>issueKey = ''AB-1'', source = ''branch'', confidence = 1\<rparr> =
     commaJoin (map source
       (filter (\<lambda>f. issueKey f = ''AB-1'' \<and> confidence f = 1)
          (foundIssues exampleSession [] [])))"
proof -
  let ?tie = "\<lparr>issueKey = ''AB-1'', source = ''branch,commit'', confidence = 1\<rparr>"
  let ?b = "\<lparr>issueKey = ''AB-1'', source = ''branch'', confidence = 1\<rparr>"
  let ?p = "\<lparr>issueKey = ''AB-1'', source = ''prompt'', confidence = 7 / 10\<rparr>"
  have R: "extractFromSession exampleSession [exampleCommit] [] = [?tie]"
    by code_simp
  have F: "foundIssues exampleSession [exampleCommit] [] =
        [?b, \<lparr>issueKey = ''AB-1'', source = ''commit'', confidence = 1\<rparr>, ?p]"
    by code_simp
  have R': "extractFromSession exampleSession [] [] = [?b]"
    by code_simp
  have F': "foundIssues exampleSession [] [] = [?b, ?p]"
    by code_simp
  have mem: "?tie \<in> set (extractFromSession exampleSession [exampleCommit] [])"
    by (simp add: R)
  have mem': "?b \<in> set (extractFromSession exampleSession [] [])"
    by (simp add: R')
  have pin: "?p \<in> set (foundIssues exampleSession [exampleCommit] [])"
    by (simp add: F)
  have same_key: "issueKey ?p = issueKey ?tie" by simp
  note inst = extractFromSession_conflict_policy [of exampleSession "[exampleCommit]" "[]"]
  note rec = inst [THEN conjunct2, THEN conjunct2, THEN conjunct2, THEN bspec, OF mem]
  note le = rec [THEN conjunct1, THEN bspec, OF pin, THEN mp, OF same_key]
  have src: "source ?tie = commaJoin (map source
       (filter (\<lambda>f. issueKey f = ''AB-1'' \<and> confidence f = 1)
          (foundIssues exampleSession [exampleCommit] [])))"
    using rec [THEN conjunct2, THEN conjunct2] by simp
  note inst' = extractFromSession_conflict_policy [of exampleSession "[]" "[]"]
  note rec' = inst' [THEN conjunct2, THEN conjunct2, THEN conjunct2, THEN bspec, OF mem']
  have src': "source ?b = commaJoin (map source
       (filter (\<lambda>f. issueKey f = ''AB-1'' \<and> confidence f = 1)
          (foundIssues exampleSession [] [])))"
    using rec' [THEN conjunct2, THEN conjunct2] by simp
  show ?thesis
    by (intro conjI R F src le R' F' src')
qed

section \<open>Tied sources and the check on the source column\<close>

lemma insertSessionIssue_check:
  "source i \<notin> set allowedSources \<Longrightarrow> insertSessionIssue sid i fk t = Inl CheckConstraint"
  by (simp add: insertSessionIssue_def)

lemma comma_not_allowed: "CHR '','' \<in> set s \<Longrightarrow> s \<notin> set allowedSources"
  by (auto simp: allowedSources_def)

lemma foundIssues_split:
  assumes "prompts sess = p # rest" and "truthy (git_branch p)"
  shows "\<exists>others. foundIssues sess commits patterns =
           extractFromBranch (or_empty (git_branch p)) patterns @
           concat (map (\<lambda>c. extractFromCommitMessage (message c) patterns) commits) @ others"
  unfolding foundIssues_def using assms by simp

lemma labelled_confidence: "labelled src conf res \<Longrightarrow> f \<in> set res \<Longrightarrow> confidence f = conf"
  by (simp add: labelled_def)

lemma foundIssues_confidence_le:
  assumes "f \<in> set (foundIssues sess commits patterns)"
  shows "confidence f \<le> 1"
proof -
  from foundIssues_labels assms
  have "(source f, confidence f) \<in>
          {(''branch'', 1), (''commit'', 1), (''prompt'', 7 / 10), (''directory'', 1 / 2)}"
    by (rule bspec)
  then have "confidence f = 1 \<or> confidence f = 7 / 10 \<or> confidence f = 1 / 2"
    by blast
  then show ?thesis by auto
qed

lemma filter_two_parts:
  assumes "a \<in> set xs" and "Q a" and "b \<in> set ys" and "Q b"
  shows "2 \<le> length (filter Q (xs @ ys @ zs))"
proof -
  have "filter Q xs \<noteq> []" using assms(1,2) by (auto simp: filter_empty_conv)
  then have x: "0 < length (filter Q xs)" by simp
  have "filter Q ys \<noteq> []" using assms(3,4) by (auto simp: filter_empty_conv)
  then have y: "0 < length (filter Q ys)" by simp
  have "length (filter Q (xs @ ys @ zs)) =
          length (filter Q xs) + length (filter Q ys) + length (filter Q zs)"
    by simp
  with x y show ?thesis by linarith
qed

lemma tied_record:
  assumes p: "prompts sess = p # rest" and br: "truthy (git_branch p)"
    and kb: "k \<in> issueKey ` set (extractFromBranch (or_empty (git_branch p)) patterns)"
    and c: "c \<in> set commits"
    and kc: "k \<in> issueKey ` set (extractFromCommitMessage (message c) patterns)"
  shows "\<exists>r\<in>set (extractFromSession sess commits patterns).
           issueKey r = k \<and> confidence r = 1 \<and> CHR '','' \<in> set (source r)"
proof -
  define F where "F = foundIssues sess commits patterns"
  define B where "B = extractFromBranch (or_empty (git_branch p)) patterns"
  define C where "C = concat (map (\<lambda>c. extractFromCommitMessage (message c) patterns) commits)"
  from foundIssues_split [OF p br, of commits patterns]
  obtain others where F: "F = B @ C @ others"
    unfolding F_def B_def C_def by blast
  from kb obtain f1 where f1: "f1 \<in> set B" and f1k: "issueKey f1 = k"
    unfolding B_def by (elim imageE) simp
  have f1c: "confidence f1 = 1"
    using labelled_extractFromBranch f1 unfolding B_def by (rule labelled_confidence)
  from kc obtain f2 where f2': "f2 \<in> set (extractFromCommitMessage (message c) patterns)"
    and f2k: "issueKey f2 = k" by (elim imageE) simp
  have f2c: "confidence f2 = 1"
    using labelled_extractFromCommitMessage f2' by (rule labelled_confidence)
  have f2: "f2 \<in> set C"
    unfolding C_def set_concat using f2' c by (intro UN_I [of "extractFromCommitMessage (message c) patterns"]) simp_all
  have f1F: "f1 \<in> set F" using f1 F by simp
  then have "issueKey f1 \<in> issueKey ` set F" by (rule imageI)
  then have "k \<in> issueKey ` set (extractFromSession sess commits patterns)"
    unfolding F_def f1k by (simp only: extractFromSession_key_set)
  then obtain r where r: "r \<in> set (extractFromSession sess commits patterns)"
    and rk: "issueKey r = k" by (elim imageE) simp
  from extractFromSession_resolved [OF r]
  have res: "resolved F k (Some r)" unfolding F_def rk .
  then have le: "\<forall>f\<in>set F. issueKey f = k \<longrightarrow> confidence f \<le> confidence r"
    and ne: "filter (\<lambda>f. issueKey f = k \<and> confidence f = confidence r) F \<noteq> []"
    and src: "source r = commaJoin (map source (filter (\<lambda>f. issueKey f = k \<and> confidence f = confidence r) F))"
    by (simp_all add: resolved_def)
  from le f1F f1k f1c have ge1: "1 \<le> confidence r"
    by (metis)
  from ne obtain f where f: "f \<in> set F" and fr: "confidence f = confidence r"
    by (auto simp: filter_empty_conv)
  from f have "confidence f \<le> 1" unfolding F_def by (rule foundIssues_confidence_le)
  with ge1 fr have conf: "confidence r = 1" by simp
  have "2 \<le> length (filter (\<lambda>f. issueKey f = k \<and> confidence f = 1) F)"
    unfolding F using f1 f2 f1k f1c f2k f2c
    by (intro filter_two_parts [of f1 B _ f2 C]) simp_all
  then have "CHR '','' \<in> set (commaJoin (map source (filter (\<lambda>f. issueKey f = k \<and> confidence f = 1) F)))"
    by (intro commaJoin_has_comma) simp
  with src conf have "CHR '','' \<in> set (source r)" by simp
  with r rk conf show ?thesis by blast
qed

lemma example_session_value:
  "exampleSession =
     \<lparr> s_session_id = ''0-/x-a'', start_time = 1700000000, end_time = 1700000000,
       lastPromptTime = 1700000000000, s_cwd = Some ''/x'', prompts = [examplePrompt],
       original_session_id = ''a'', prompt_count = 1, duration_minutes = Some 0 \<rparr>"
  by (simp add: exampleSession_def examplePrompt_def session_builder_defs)

lemma example_commits:
  "getCommitsFromRepos (exampleEnv entries) (repoPathsOf exampleSession)
     (start_time exampleSession) (end_time exampleSession) = [exampleCommit]"
  by (simp add: example_session_value getCommitsFromRepos_def repoPathsOf_def uniqueInOrder_def
        exampleEnv_def examplePrompt_def truthy_def or_empty_def)

lemma example_build:
  "buildSessions (exampleEnv [examplePrompt]) exampleConfig [examplePrompt] = [exampleSession]"
  by (simp add: buildSessions_def groupBySession_def exampleEnv_def exampleConfig_def
        example_session_value)
     (simp add: examplePrompt_def session_builder_defs)

lemma example_tie:
  "extractFromSession exampleSession [exampleCommit] [] =
     [\<lparr>issueKey = ''AB-1'', source = ''branch,commit'', confidence = 1\<rparr>]"
  by code_simp

text \<open>
  C6, as stated: a session with the same key from two sources of equal confidence yields
  a record that fails the \<open>CHECK\<close> on \<open>source\<close>, so that the error branch of the insert is
  reached and persisting the session fails on it. The log file with the one entry
  \<open>examplePrompt\<close> has one session, whose branch and whose commit both name \<open>AB-1\<close>, and
  the extractor returns the record with the source \<open>branch,commit\<close> for it. Processing the
  file does not reach the insert: the exception thrown is that of the call of
  \<open>db.transaction\<close>, no statement is run, and no table has a row.
\<close>

theorem tied_insert_not_reached:
  "buildSessions (exampleEnv [examplePrompt]) exampleConfig [examplePrompt] = [exampleSession] \<and>
   getCommitsFromRepos (exampleEnv [examplePrompt]) (repoPathsOf exampleSession)
     (start_time exampleSession) (end_time exampleSession) = [exampleCommit] \<and>
   extractFromSession exampleSession [exampleCommit] (issueKeyPatterns exampleConfig) =
     [\<lparr>issueKey = ''AB-1'', source = ''branch,commit'', confidence = 1\<rparr>] \<and>
   fst (tryProcessFile (exampleEnv [examplePrompt]) exampleConfig exampleLogFile exampleState) =
     Some NotAFunction \<and>
   journal (db (processFile (exampleEnv [examplePrompt]) exampleConfig exampleLogFile exampleState))
     = [] \<and>
   data (db (processFile (exampleEnv [examplePrompt]) exampleConfig exampleLogFile exampleState))
     = emptyTables"
  by code_simp

text \<open>
  C6, amended: when the branch of a session's first entry and the message of one of its
  commits yield the same issue key (the two sources of equal confidence),
  \<open>extractFromSession\<close> returns for that key a record of confidence 1 whose \<open>source\<close>
  contains a comma and so is none of \<open>branch\<close>, \<open>commit\<close>, \<open>prompt\<close>, \<open>directory\<close>; the
  insert of such a record into \<open>session_issues\<close> fails the \<open>CHECK\<close> on \<open>source\<close> whatever
  the session, the foreign-key setting and the tables are.
\<close>

theorem tied_sources_fail_check:
  assumes "prompts sess = p # rest" and "truthy (git_branch p)"
    and "k \<in> issueKey ` set (extractFromBranch (or_empty (git_branch p)) patterns)"
    and "c \<in> set commits"
    and "k \<in> issueKey ` set (extractFromCommitMessage (message c) patterns)"
  shows "\<exists>r\<in>set (extractFromSession sess commits patterns).
            issueKey r = k \<and> confidence r = 1 \<and> CHR '','' \<in> set (source r) \<and>
            source r \<notin> set allowedSources \<and>
            (\<forall>sid fk t. insertSessionIssue sid r fk t = Inl CheckConstraint)"
proof -
  from tied_record [OF assms] obtain r
    where r: "r \<in> set (extractFromSession sess commits patterns)"
      and rk: "issueKey r = k" "confidence r = 1" and comma: "CHR '','' \<in> set (source r)"
    by blast
  from comma have bad: "source r \<notin> set allowedSources" by (rule comma_not_allowed)
  show ?thesis
    using r rk comma bad insertSessionIssue_check [OF bad] by blast
qed

lemma example_branch_key:
  "''AB-1'' \<in> issueKey ` set (extractFromBranch (or_empty (git_branch examplePrompt)) [])"
proof -
  have "extractFromBranch ''me/AB-1-fix'' [] =
          [\<lparr>issueKey = ''AB-1'', source = ''branch'', confidence = 1\<rparr>]"
    by code_simp
  then show ?thesis by (simp add: examplePrompt_def or_empty_def)
qed

lemma example_commit_key:
  "''AB-1'' \<in> issueKey ` set (extractFromCommitMessage (message exampleCommit) [])"
proof -
  have "extractFromCommitMessage ''[AB-1] done'' [] =
          [\<lparr>issueKey = ''AB-1'', source = ''commit'', confidence = 1\<rparr>]"
    by code_simp
  then show ?thesis by (simp add: exampleCommit_def)
qed

theorem tied_sources_fail_check_witness:
  "prompts exampleSession = examplePrompt # [] \<and>
   truthy (git_branch examplePrompt) \<and>
   ''AB-1'' \<in> issueKey ` set (extractFromBranch (or_empty (git_branch examplePrompt)) []) \<and>
   exampleCommit \<in> set [exampleCommit] \<and>
   ''AB-1'' \<in> issueKey ` set (extractFromCommitMessage (message exampleCommit) []) \<and>
   extractFromSession exampleSession [exampleCommit] [] =
     [\<lparr>issueKey = ''AB-1'', source = ''branch,commit'', confidence = 1\<rparr>] \<and>
   (\<exists>r. r \<in> set (extractFromSession exampleSession [exampleCommit] []) \<and>
        issueKey r = ''AB-1'' \<and> confidence r = 1 \<and> CHR '','' \<in> set (source r) \<and>
        source r \<notin> set allowedSources \<and>
        insertSessionIssue (s_session_id exampleSession) r True emptyTables = Inl CheckConstraint)"
proof -
  have h1: "prompts exampleSession = examplePrompt # []"
    by (simp add: example_session_value)
  have h2: "truthy (git_branch examplePrompt)"
    by (simp add: examplePrompt_def truthy_def)
  note h3 = example_branch_key
  have h4: "exampleCommit \<in> set [exampleCommit]" by simp
  note h5 = example_commit_key
  note inst = tied_sources_fail_check [OF h1 h2 h3 h4 h5]
  from inst
  have a: "\<exists>r. r \<in> set (extractFromSession exampleSession [exampleCommit] []) \<and>
        issueKey r = ''AB-1'' \<and> confidence r = 1 \<and> CHR '','' \<in> set (source r) \<and>
        source r \<notin> set allowedSources \<and>
        insertSessionIssue (s_session_id exampleSession) r True emptyTables = Inl CheckConstraint"
    by (elim bexE conjE) (intro exI conjI, assumption+, simp)
  show ?thesis
    by (intro conjI h1 h2 h3 h4 h5 example_tie a)
qed

section \<open>Orchestrator: the ledger and the failed transaction\<close>





section \<open>Orchestrator: sessions without a working directory\<close>

lemma buildSessions_finalized:
  "sess \<in> set (buildSessions E cfg entries) \<Longrightarrow> duration_minutes sess \<noteq> None"
  using groupSessions_finalized by (auto simp: buildSessions_def)

lemma repoPathsOf_nil:
  "\<forall>p\<in>set (prompts sess). \<not> truthy (cwd p) \<Longrightarrow> repoPathsOf sess = []"
  by (simp add: repoPathsOf_def filter_empty_conv)

lemma forEach_insertPrompt:
  assumes "foreign_keys (db st) \<longrightarrow> sid \<in> r_session_id ` set (sessions (data (db st)))"
  shows "fst (forEach (\<lambda>p. run ''prompts'' (insertPrompt sid p)) ps st) = None \<and>
         data (db (snd (forEach (\<lambda>p. run ''prompts'' (insertPrompt sid p)) ps st))) =
           (data (db st))\<lparr>prompts_table := prompts_table (data (db st)) @ map (promptRow sid) ps\<rparr> \<and>
         journal (db (snd (forEach (\<lambda>p. run ''prompts'' (insertPrompt sid p)) ps st))) =
           journal (db st) @ replicate (length ps) (''prompts'', in_transaction (db st)) \<and>
         totalCommits (snd (forEach (\<lambda>p. run ''prompts'' (insertPrompt sid p)) ps st)) = totalCommits st \<and>
         totalIssues (snd (forEach (\<lambda>p. run ''prompts'' (insertPrompt sid p)) ps st)) = totalIssues st"
  using assms
proof (induction ps arbitrary: st)
  case Nil
  then show ?case by simp
next
  case (Cons p ps)
  let ?st1 = "st\<lparr>db := (db st)\<lparr>journal := journal (db st) @ [(''prompts'', in_transaction (db st))],
                 data := (data (db st))\<lparr>prompts_table :=
                   prompts_table (data (db st)) @ [promptRow sid p]\<rparr>\<rparr>\<rparr>"
  have one: "run ''prompts'' (insertPrompt sid p) st = (None, ?st1)"
    using Cons.prems by (auto simp: run_def insertPrompt_def Let_def)
  have "foreign_keys (db ?st1) \<longrightarrow> sid \<in> r_session_id ` set (sessions (data (db ?st1)))"
    using Cons.prems by simp
  from Cons.IH [OF this] show ?case
    using one by (simp add: replicate_app_Cons_same)
qed

text \<open>
  The function that \<open>processLogs\<close> hands to \<open>db.transaction\<close> does what C10 says: for a
  session of a log file none of whose entries has a non-empty \<open>cwd\<close>, its iteration runs
  the insert of the session row and one insert of a prompt row for each entry, all of
  which succeed, and nothing else; the commit table, the session-commit links, the issue
  links and the counts of commits and issues are as before.
\<close>

lemma persistSession_without_cwd:
  assumes "\<forall>p\<in>set (prompts sess). \<not> truthy (cwd p)"
    and "sess \<in> set (buildSessions E cfg entries)"
  shows "fst (persistSession E cfg sess st) = None \<and>
         (\<exists>d. duration_minutes sess = Some d \<and>
              sessions (data (db (snd (persistSession E cfg sess st)))) =
                filter (\<lambda>r. r_session_id r \<noteq> s_session_id sess) (sessions (data (db st))) @
                [sessionRow sess d]) \<and>
         prompts_table (data (db (snd (persistSession E cfg sess st)))) =
           prompts_table (data (db st)) @ map (promptRow (s_session_id sess)) (prompts sess) \<and>
         git_commits (data (db (snd (persistSession E cfg sess st)))) = git_commits (data (db st)) \<and>
         session_commits (data (db (snd (persistSession E cfg sess st)))) =
           session_commits (data (db st)) \<and>
         session_issues (data (db (snd (persistSession E cfg sess st)))) =
           session_issues (data (db st)) \<and>
         totalCommits (snd (persistSession E cfg sess st)) = totalCommits st \<and>
         totalIssues (snd (persistSession E cfg sess st)) = totalIssues st \<and>
         map fst (journal (db (snd (persistSession E cfg sess st)))) =
           map fst (journal (db st)) @ ''sessions'' # replicate (length (prompts sess)) ''prompts''"
proof -
  from buildSessions_finalized [OF assms(2)] obtain d where d: "duration_minutes sess = Some d"
    by blast
  let ?sid = "s_session_id sess"
  let ?t1 = "(data (db st))\<lparr>sessions :=
               filter (\<lambda>r. r_session_id r \<noteq> ?sid) (sessions (data (db st))) @ [sessionRow sess d]\<rparr>"
  let ?st1 = "st\<lparr>db := (db st)\<lparr>journal := journal (db st) @ [(''sessions'', in_transaction (db st))],
                 data := ?t1\<rparr>\<rparr>"
  have one: "run ''sessions'' (insertSession sess) st = (None, ?st1)"
    using d by (simp add: run_def insertSession_def Let_def)
  have fk: "foreign_keys (db ?st1) \<longrightarrow> ?sid \<in> r_session_id ` set (sessions (data (db ?st1)))"
    by (simp add: sessionRow_def)
  note rows = forEach_insertPrompt [OF fk, of "prompts sess"]
  obtain r st2 where two: "forEach (\<lambda>p. run ''prompts'' (insertPrompt ?sid p)) (prompts sess) ?st1 = (r, st2)"
    by (cases "forEach (\<lambda>p. run ''prompts'' (insertPrompt ?sid p)) (prompts sess) ?st1")
  from rows two have r: "r = None"
    and data2: "data (db st2) = ?t1\<lparr>prompts_table := prompts_table ?t1 @ map (promptRow ?sid) (prompts sess)\<rparr>"
    and j2: "journal (db st2) = journal (db ?st1) @
               replicate (length (prompts sess)) (''prompts'', in_transaction (db ?st1))"
    and c2: "totalCommits st2 = totalCommits st" and i2: "totalIssues st2 = totalIssues st"
    by simp_all
  have all: "persistSession E cfg sess st = (None, st2)"
    using one two r repoPathsOf_nil [OF assms(1)]
    by (simp add: persistSession_def seq_def)
  show ?thesis
    unfolding all using d data2 j2 c2 i2 by simp
qed

text \<open>
  C10: for a session none of whose entries has a non-empty \<open>cwd\<close>, the orchestrator
  persists the session row and its prompt rows. The log file with the one entry
  \<open>examplePrompt\<close> without its \<open>cwd\<close> has one such session, and processing the file stores
  neither its row nor the row of its entry: the call of \<open>db.transaction\<close> throws before
  the function given to it is run, the exception is counted, no statement is run, and
  the ledger does not hold the file.
\<close>

theorem session_without_cwd_not_stored:
  "buildSessions (exampleEnv [examplePrompt\<lparr>cwd := None\<rparr>]) exampleConfig
     [examplePrompt\<lparr>cwd := None\<rparr>] = [exampleNoCwdSession] \<and>
   map cwd (prompts exampleNoCwdSession) = [None] \<and>
   fst (tryProcessFile (exampleEnv [examplePrompt\<lparr>cwd := None\<rparr>]) exampleConfig exampleLogFile
          exampleState) = Some NotAFunction \<and>
   sessions (data (db (processFile (exampleEnv [examplePrompt\<lparr>cwd := None\<rparr>]) exampleConfig
      exampleLogFile exampleState))) = [] \<and>
   prompts_table (data (db (processFile (exampleEnv [examplePrompt\<lparr>cwd := None\<rparr>]) exampleConfig
      exampleLogFile exampleState))) = [] \<and>
   journal (db (processFile (exampleEnv [examplePrompt\<lparr>cwd := None\<rparr>]) exampleConfig
      exampleLogFile exampleState)) = [] \<and>
   errors (processFile (exampleEnv [examplePrompt\<lparr>cwd := None\<rparr>]) exampleConfig
      exampleLogFile exampleState) = 1 \<and>
   alreadyProcessed (processFile (exampleEnv [examplePrompt\<lparr>cwd := None\<rparr>]) exampleConfig
      exampleLogFile exampleState) exampleLogFile = False"
  by code_simp

end
